theory Spec2Isabelle
  imports Main "HOL-Library.Word" "HOL-Library.List_Lexorder" "HOL-Library.Sublist"
begin

section \<open>JavaScript strings\<close>

text \<open>
  A JavaScript string is a sequence of UTF-16 code units. String literals of the source
  are written \<open>lit ''...''\<close>. A string is truthy iff it is not empty.
\<close>

type_synonym js_string = "16 word list"

definition lit :: "string \<Rightarrow> js_string" where
  "lit s = map of_char s"

text \<open>
  \<open>String.prototype.trim\<close> removes leading and trailing WhiteSpace and LineTerminator
  code points (ECMAScript 12.2 and 12.3): TAB, LF, VT, FF, CR, SP, NBSP, U+1680,
  U+2000..U+200A, U+2028, U+2029, U+202F, U+205F, U+3000 and U+FEFF.
\<close>

definition isWhiteSpace :: "16 word \<Rightarrow> bool" where
  "isWhiteSpace c \<longleftrightarrow>
     (0x0009 \<le> c \<and> c \<le> 0x000D) \<or> c = 0x0020 \<or> c = 0x00A0 \<or> c = 0x1680 \<or>
     (0x2000 \<le> c \<and> c \<le> 0x200A) \<or> c = 0x2028 \<or> c = 0x2029 \<or> c = 0x202F \<or>
     c = 0x205F \<or> c = 0x3000 \<or> c = 0xFEFF"

definition trim :: "js_string \<Rightarrow> js_string" where
  "trim s = rev (dropWhile isWhiteSpace (rev (dropWhile isWhiteSpace s)))"

text \<open>
  A template literal renders a non-negative integer below \<open>10^21\<close> (every \<open>Date.now()\<close>
  is one) in decimal, most significant digit first.
\<close>

definition digit :: "nat \<Rightarrow> 16 word" where
  "digit d = of_nat (48 + d)"

fun dec :: "nat \<Rightarrow> js_string" where
  "dec n = (if n < 10 then [digit n] else dec (n div 10) @ [digit (n mod 10)])"

declare dec.simps [simp del]

text \<open>\<open>String.prototype.includes\<close> and \<open>Array.prototype.join\<close>.\<close>

fun str_includes :: "js_string \<Rightarrow> js_string \<Rightarrow> bool" where
  "str_includes [] sub = (sub = [])"
| "str_includes (c # cs) sub = (take (length sub) (c # cs) = sub \<or> str_includes cs sub)"

fun join :: "js_string \<Rightarrow> js_string list \<Rightarrow> js_string" where
  "join sep [] = []"
| "join sep [x] = x"
| "join sep (x # y # ys) = x @ sep @ join sep (y # ys)"

definition nl :: js_string where
  "nl = [0x000A]"

section \<open>Data model (types.ts)\<close>

record FileAttachment =
  name :: js_string
  mimeType :: js_string
  data :: js_string

datatype SourceType = TUrl | TFile

text \<open>The optional fields \<open>url?\<close> and \<open>mimeType?\<close> are \<open>None\<close> when absent.\<close>

record ReferenceSource =
  src_id :: js_string
  src_type :: SourceType
  title :: js_string
  url :: "js_string option"
  src_mimeType :: "js_string option"

record URLGroup =
  group_id :: js_string
  group_name :: js_string
  sources :: "ReferenceSource list"

datatype MessageSender = USER | MODEL | SYSTEM

record UrlContextMetadataItem =
  retrievedUrl :: js_string
  urlRetrievalStatus :: js_string

record ChatMessage =
  msg_id :: js_string
  msg_text :: js_string
  sender :: MessageSender
  timestamp :: nat
  msg_isLoading :: "bool option"
  urlContext :: "UrlContextMetadataItem list option"
  attachments :: "FileAttachment list option"

section \<open>Blob store (utils/db)\<close>

text \<open>\<open>StoredFile extends FileAttachment\<close> with the key \<open>id\<close> and a creation date.\<close>

record StoredFile = FileAttachment +
  file_id :: js_string
  date :: nat

text \<open>
  The object store \<open>files\<close> has key path \<open>id\<close>: it holds at most one record per key
  and iterates in ascending key order (strings compare by code units).
\<close>

type_synonym idb = "StoredFile list"

definition idb_put :: "StoredFile \<Rightarrow> idb \<Rightarrow> idb" where
  "idb_put f db = insort_key file_id f (filter (\<lambda>g. file_id g \<noteq> file_id f) db)"

definition idb_get :: "js_string \<Rightarrow> idb \<Rightarrow> StoredFile option" where
  "idb_get k db = find (\<lambda>g. file_id g = k) db"

definition idb_delete :: "js_string \<Rightarrow> idb \<Rightarrow> idb" where
  "idb_delete k db = filter (\<lambda>g. file_id g \<noteq> k) db"

text \<open>
  How the browser answers one call of the access layer: the database opens and the
  transaction completes; the database opens and the request or transaction fires
  \<open>onerror\<close> (the transaction is rolled back); or no handler of the function is ever
  called, as when \<open>indexedDB.open\<close> itself fails.
\<close>

datatype idb_outcome = IdbOk | IdbTxError | IdbOpenFailed

text \<open>
  What an \<open>await\<close> of a promise sees. Only \<open>initDB\<close> installs \<open>request.onerror\<close>; the other
  four functions settle their promise inside \<open>request.onsuccess\<close> only, so when the open
  request fails their promise stays \<open>Pending\<close> for ever.
\<close>

datatype 'a promise = Resolved 'a | Rejected | Pending

definition initDB :: "idb_outcome \<Rightarrow> unit promise" where
  "initDB out = (case out of IdbOpenFailed \<Rightarrow> Rejected | _ \<Rightarrow> Resolved ())"

definition saveFileToDB :: "idb_outcome \<Rightarrow> StoredFile \<Rightarrow> idb \<Rightarrow> unit promise \<times> idb" where
  "saveFileToDB out file db =
     (case out of
        IdbOk \<Rightarrow> (Resolved (), idb_put file db)
      | IdbTxError \<Rightarrow> (Rejected, db)
      | IdbOpenFailed \<Rightarrow> (Pending, db))"

definition getAllFilesFromDB :: "idb_outcome \<Rightarrow> idb \<Rightarrow> StoredFile list promise" where
  "getAllFilesFromDB out db =
     (case out of
        IdbOk \<Rightarrow> Resolved db
      | IdbTxError \<Rightarrow> Rejected
      | IdbOpenFailed \<Rightarrow> Pending)"

definition getFileFromDB :: "idb_outcome \<Rightarrow> idb \<Rightarrow> js_string \<Rightarrow> StoredFile option promise" where
  "getFileFromDB out db k =
     (case out of
        IdbOk \<Rightarrow> Resolved (idb_get k db)
      | IdbTxError \<Rightarrow> Rejected
      | IdbOpenFailed \<Rightarrow> Pending)"

definition deleteFileFromDB :: "idb_outcome \<Rightarrow> js_string \<Rightarrow> idb \<Rightarrow> unit promise \<times> idb" where
  "deleteFileFromDB out k db =
     (case out of
        IdbOk \<Rightarrow> (Resolved (), idb_delete k db)
      | IdbTxError \<Rightarrow> (Rejected, db)
      | IdbOpenFailed \<Rightarrow> (Pending, db))"

section \<open>Generation client (services/geminiService)\<close>

text \<open>
  The SDK call \<open>ai.models.generateContent\<close> is outside the repository: it is a parameter
  that returns a response or throws. A thrown value is an \<open>Error\<close> with a message, or
  something else.
\<close>

datatype Part = InlineData js_string js_string | Text js_string

record GenRequest =
  parts :: "Part list"
  googleSearch :: bool

datatype js_thrown = Error js_string | NonError

text \<open>A grounding chunk is kept as its \<open>web.uri\<close>, \<open>None\<close> when it has no \<open>web\<close>.\<close>

record Candidate =
  groundingChunks :: "js_string option list option"
  urlMetadata :: "UrlContextMetadataItem list option"

record SdkResponse =
  resp_text :: "js_string option"
  candidates :: "Candidate list option"

record GeminiResponse =
  gr_text :: js_string
  urlContextMetadata :: "UrlContextMetadataItem list option"

definition fullPrompt :: "js_string \<Rightarrow> js_string list \<Rightarrow> FileAttachment list \<Rightarrow> js_string" where
  "fullPrompt prompt urls files =
     (let contextInfo =
            (if length urls > 0
             then nl @ lit ''[Provided Context Sources (URLs)]:'' @ nl @
                  join nl (map (\<lambda>u. lit ''- '' @ u) urls)
             else []) @
            (if length files > 0
             then nl @ lit ''[Attached Documentation Files]:'' @ nl @
                  join nl (map (\<lambda>f. lit ''- '' @ name f) files)
             else [])
      in if contextInfo \<noteq> []
         then prompt @ nl @ nl @ contextInfo @ nl @ nl @
              lit ''Please consult these sources to answer the inquiry. When citing, refer to the document titles listed above.''
         else prompt)"

definition extractUrlContextMetadata :: "SdkResponse \<Rightarrow> UrlContextMetadataItem list option" where
  "extractUrlContextMetadata response =
     (case candidates response of
        None \<Rightarrow> None
      | Some [] \<Rightarrow> None
      | Some (candidate # _) \<Rightarrow>
          (case groundingChunks candidate of
             Some chunks \<Rightarrow>
               Some (map (\<lambda>uri. \<lparr>retrievedUrl = uri,
                                  urlRetrievalStatus = lit ''URL_RETRIEVAL_STATUS_SUCCESS''\<rparr>)
                       (concat (map (\<lambda>chunk. case chunk of None \<Rightarrow> [] | Some uri \<Rightarrow> [uri])
                          chunks)))
           | None \<Rightarrow> urlMetadata candidate))"

text \<open>
  \<open>generateContentWithUrlContext\<close>: \<open>Inl\<close> is the message of the \<open>Error\<close> it throws.
  \<open>getAiInstance\<close> throws before any request when \<open>API_KEY\<close> is unset or empty; the
  \<open>catch\<close> block replaces whatever the SDK threw by one of four errors.
\<close>

definition generateContentWithUrlContext ::
  "js_string option \<Rightarrow> (GenRequest \<Rightarrow> js_thrown + SdkResponse) \<Rightarrow>
   js_string \<Rightarrow> js_string list \<Rightarrow> FileAttachment list \<Rightarrow> js_string + GeminiResponse" where
  "generateContentWithUrlContext API_KEY generateContent prompt urls files =
     (if API_KEY = None \<or> API_KEY = Some []
      then Inl (lit ''Gemini API Key not configured. Set process.env.API_KEY.'')
      else
        case generateContent
               \<lparr>parts = map (\<lambda>file. InlineData (data file) (mimeType file)) files @
                          [Text (fullPrompt prompt urls files)],
                googleSearch = (length urls > 0)\<rparr> of
          Inr response \<Rightarrow>
            Inr \<lparr>gr_text = (case resp_text response of None \<Rightarrow> [] | Some t \<Rightarrow> t),
                 urlContextMetadata = extractUrlContextMetadata response\<rparr>
        | Inl (Error message) \<Rightarrow>
            if message \<noteq> [] \<and> str_includes message (lit ''API key not valid'')
            then Inl (lit ''Invalid API Key. Please check your GEMINI_API_KEY environment variable.'')
            else if message \<noteq> [] \<and> str_includes message (lit ''quota'')
            then Inl (lit ''API quota exceeded. Please check your Gemini API quota.'')
            else Inl (lit ''Failed to get response from AI: '' @ message)
        | Inl NonError \<Rightarrow>
            Inl (lit ''Failed to get response from AI due to an unknown error.''))"

section \<open>Application state (App.tsx)\<close>

text \<open>
  The React state of \<open>App\<close> together with what its handlers act on outside React: the
  object store, the \<open>alert\<close> boxes shown, and the requests handed to the generation
  client, each as (prompt, urls, files).
\<close>

record App =
  urlGroups :: "URLGroup list"
  activeUrlGroupId :: js_string
  chatMessages :: "ChatMessage list"
  isLoading :: bool
  files_db :: idb
  alerts :: "js_string list"
  requests :: "(js_string \<times> js_string list \<times> FileAttachment list) list"

definition INITIAL_URL_GROUPS :: "URLGroup list" where
  "INITIAL_URL_GROUPS =
     [\<lparr>group_id = lit ''default-library'', group_name = lit ''My Knowledge Library'',
       sources = []\<rparr>]"

text \<open>The state of \<open>App\<close> at its first render, over an empty object store.\<close>

definition initialApp :: App where
  "initialApp =
     \<lparr>urlGroups = INITIAL_URL_GROUPS, activeUrlGroupId = group_id (INITIAL_URL_GROUPS ! 0),
      chatMessages = [], isLoading = False, files_db = [], alerts = [], requests = []\<rparr>"

definition MAX_ITEMS :: nat where
  "MAX_ITEMS = 50"

text \<open>
  The lookup of \<open>handleRemoveSource\<close>: the first group holding a source with the id, then
  the first such source of that group.
\<close>

definition findSource :: "js_string \<Rightarrow> URLGroup list \<Rightarrow> ReferenceSource option" where
  "findSource sourceId groups =
     (case find (\<lambda>g. list_ex (\<lambda>s. src_id s = sourceId) (sources g)) groups of
        None \<Rightarrow> None
      | Some g \<Rightarrow> find (\<lambda>s. src_id s = sourceId) (sources g))"

definition handleRenameSource :: "js_string \<Rightarrow> js_string \<Rightarrow> App \<Rightarrow> App" where
  "handleRenameSource sourceId newTitle app =
     app\<lparr>urlGroups :=
       map (\<lambda>g. g\<lparr>sources :=
              map (\<lambda>s. if src_id s = sourceId then s\<lparr>title := newTitle\<rparr> else s)
                (sources g)\<rparr>)
         (urlGroups app)\<rparr>"

text \<open>
  \<open>activeGroup = urlGroups.find(g => g.id === activeUrlGroupId) || urlGroups[0]\<close>; with
  no group at all it is \<open>undefined\<close> and reading \<open>activeGroup.sources\<close> fails the render,
  so no handler can be invoked: \<open>None\<close>.
\<close>

definition activeGroup :: "App \<Rightarrow> URLGroup option" where
  "activeGroup app =
     (case find (\<lambda>g. group_id g = activeUrlGroupId app) (urlGroups app) of
        Some g \<Rightarrow> Some g
      | None \<Rightarrow> (case urlGroups app of [] \<Rightarrow> None | g # _ \<Rightarrow> Some g))"

definition activeSources :: "App \<Rightarrow> ReferenceSource list option" where
  "activeSources app = map_option sources (activeGroup app)"

text \<open>
  Identifiers are \<open>`src-${Date.now()}-${Math.random().toString(36).substr(2, 9)}`\<close> and
  the same with \<open>file-\<close>. The clock reading \<open>now\<close> and the rendered random suffix \<open>rnd\<close>
  are inputs.
\<close>

definition newId :: "string \<Rightarrow> nat \<Rightarrow> js_string \<Rightarrow> js_string" where
  "newId pre now rnd = lit pre @ dec now @ lit ''-'' @ rnd"

definition appendToActive :: "ReferenceSource \<Rightarrow> App \<Rightarrow> App" where
  "appendToActive newSource app =
     app\<lparr>urlGroups :=
       map (\<lambda>g. if group_id g = activeUrlGroupId app
                then g\<lparr>sources := sources g @ [newSource]\<rparr> else g)
         (urlGroups app)\<rparr>"

definition handleAddSource :: "nat \<Rightarrow> js_string \<Rightarrow> js_string \<Rightarrow> App \<Rightarrow> App" where
  "handleAddSource now rnd u app =
     appendToActive
       \<lparr>src_id = newId ''src-'' now rnd, src_type = TUrl, title = u, url = Some u,
        src_mimeType = None\<rparr> app"

text \<open>The browser's \<open>File\<close>: its name and declared media type.\<close>

record JsFile =
  js_name :: js_string
  js_type :: js_string

text \<open>
  \<open>handleAddPersistentFile\<close>, as the states the application passes through after the
  call, in order, and whether the handler ran to its end (\<open>False\<close>: an \<open>await\<close> never
  resumes). \<open>b64\<close> is what \<open>fileToBase64(file)\<close> settles to (the \<open>FileReader\<close> is the
  browser's), \<open>day\<close> the reading of \<open>new Date()\<close>, \<open>out\<close> the store's answer.
\<close>

definition storedFileOf :: "js_string \<Rightarrow> nat \<Rightarrow> js_string \<Rightarrow> nat \<Rightarrow> JsFile \<Rightarrow> StoredFile" where
  "storedFileOf base64 now rnd day file =
     \<lparr>name = js_name file, mimeType = js_type file, data = base64,
      file_id = newId ''file-'' now rnd, date = day\<rparr>"

definition fileSourceOf :: "nat \<Rightarrow> js_string \<Rightarrow> JsFile \<Rightarrow> ReferenceSource" where
  "fileSourceOf now rnd file =
     \<lparr>src_id = newId ''file-'' now rnd, src_type = TFile, title = js_name file, url = None,
      src_mimeType = Some (js_type file)\<rparr>"

definition handleAddPersistentFile_steps ::
  "js_string promise \<Rightarrow> nat \<Rightarrow> js_string \<Rightarrow> nat \<Rightarrow> idb_outcome \<Rightarrow> JsFile \<Rightarrow> App \<Rightarrow>
   App list \<times> bool" where
  "handleAddPersistentFile_steps b64 now rnd day out file app =
     (case b64 of
        Pending \<Rightarrow> ([], False)
      | Rejected \<Rightarrow>
          ([app\<lparr>alerts := alerts app @ [lit ''Failed to save file to library.'']\<rparr>], True)
      | Resolved base64 \<Rightarrow>
          (case saveFileToDB out (storedFileOf base64 now rnd day file) (files_db app) of
             (Pending, db') \<Rightarrow> ([app\<lparr>files_db := db'\<rparr>], False)
           | (Rejected, db') \<Rightarrow>
               ([app\<lparr>files_db := db'\<rparr>,
                 app\<lparr>files_db := db',
                     alerts := alerts app @ [lit ''Failed to save file to library.'']\<rparr>], True)
           | (Resolved _, db') \<Rightarrow>
               ([app\<lparr>files_db := db'\<rparr>,
                 appendToActive (fileSourceOf now rnd file) (app\<lparr>files_db := db'\<rparr>)], True)))"

definition handleAddPersistentFile ::
  "js_string promise \<Rightarrow> nat \<Rightarrow> js_string \<Rightarrow> nat \<Rightarrow> idb_outcome \<Rightarrow> JsFile \<Rightarrow> App \<Rightarrow> App" where
  "handleAddPersistentFile b64 now rnd day out file app =
     last (app # fst (handleAddPersistentFile_steps b64 now rnd day out file app))"

text \<open>
  \<open>handleRemoveSource\<close>: the final state and whether the handler ran to its end. A
  rejected delete is caught and logged; the filter then runs all the same.
\<close>

definition removeFromGroups :: "js_string \<Rightarrow> App \<Rightarrow> App" where
  "removeFromGroups sourceId app =
     app\<lparr>urlGroups :=
       map (\<lambda>g. g\<lparr>sources := filter (\<lambda>s. src_id s \<noteq> sourceId) (sources g)\<rparr>)
         (urlGroups app)\<rparr>"

definition handleRemoveSource :: "idb_outcome \<Rightarrow> js_string \<Rightarrow> App \<Rightarrow> App \<times> bool" where
  "handleRemoveSource out sourceId app =
     (case findSource sourceId (urlGroups app) of
        None \<Rightarrow> (removeFromGroups sourceId app, True)
      | Some source \<Rightarrow>
          if src_type source = TFile
          then (case deleteFileFromDB out sourceId (files_db app) of
                  (Pending, db') \<Rightarrow> (app\<lparr>files_db := db'\<rparr>, False)
                | (_, db') \<Rightarrow> (removeFromGroups sourceId (app\<lparr>files_db := db'\<rparr>), True))
          else (removeFromGroups sourceId app, True))"

subsection \<open>Startup reconciliation\<close>

datatype js_exn = TypeError

fun findIndex :: "('a \<Rightarrow> bool) \<Rightarrow> 'a list \<Rightarrow> nat option" where
  "findIndex P [] = None"
| "findIndex P (x # xs) = (if P x then Some 0 else map_option Suc (findIndex P xs))"

text \<open>
  \<open>defaultGroup = newGroups.find(g => g.id === 'default-library') || newGroups[0]\<close>, as
  its position in \<open>newGroups\<close>; \<open>None\<close> is \<open>undefined\<close>.
\<close>

definition defaultGroup :: "URLGroup list \<Rightarrow> nat option" where
  "defaultGroup newGroups =
     (case findIndex (\<lambda>g. group_id g = lit ''default-library'') newGroups of
        Some i \<Rightarrow> Some i
      | None \<Rightarrow> (if newGroups = [] then None else Some 0))"

definition isKnown :: "URLGroup list \<Rightarrow> StoredFile \<Rightarrow> bool" where
  "isKnown newGroups file =
     list_ex (\<lambda>g. list_ex (\<lambda>s. src_id s = file_id file) (sources g)) newGroups"

definition orphanSource :: "StoredFile \<Rightarrow> ReferenceSource" where
  "orphanSource file =
     \<lparr>src_id = file_id file, src_type = TFile, title = name file, url = None,
      src_mimeType = Some (mimeType file)\<rparr>"

text \<open>\<open>sources.push(d)\<close> on the group at position \<open>i\<close>.\<close>

definition pushSource :: "nat \<Rightarrow> ReferenceSource \<Rightarrow> URLGroup list \<Rightarrow> URLGroup list" where
  "pushSource i d gs = gs[i := (gs ! i)\<lparr>sources := sources (gs ! i) @ [d]\<rparr>]"

text \<open>
  The \<open>dbFiles.forEach\<close> loop. \<open>push\<close> changes the default group in place, so later
  iterations of \<open>isKnown\<close> see the descriptors pushed by earlier ones; with \<open>defaultGroup\<close>
  undefined, \<open>defaultGroup.sources\<close> throws a TypeError.
\<close>

fun forEachDbFile :: "nat option \<Rightarrow> StoredFile list \<Rightarrow> URLGroup list \<Rightarrow> js_exn + URLGroup list" where
  "forEachDbFile dg [] newGroups = Inr newGroups"
| "forEachDbFile dg (file # rest) newGroups =
     (if isKnown newGroups file then forEachDbFile dg rest newGroups
      else case dg of
             None \<Rightarrow> Inl TypeError
           | Some i \<Rightarrow>
               forEachDbFile dg rest (pushSource i (orphanSource file) newGroups))"

definition loadGroups :: "URLGroup list option \<Rightarrow> URLGroup list" where
  "loadGroups savedMeta =
     (case savedMeta of None \<Rightarrow> INITIAL_URL_GROUPS | Some groups \<Rightarrow> groups)"

text \<open>
  The updater handed to \<open>setUrlGroups\<close> by \<open>initializeData\<close>: \<open>savedMeta\<close> is the parsed
  document of the metadata store (\<open>None\<close> when the key is missing), \<open>dbFiles\<close> the result
  of \<open>getAllFilesFromDB\<close>.
\<close>

definition reconcile :: "URLGroup list option \<Rightarrow> StoredFile list \<Rightarrow> js_exn + URLGroup list" where
  "reconcile savedMeta dbFiles =
     forEachDbFile (defaultGroup (loadGroups savedMeta)) dbFiles (loadGroups savedMeta)"

text \<open>
  \<open>initializeData\<close>: a rejected \<open>initDB\<close> or \<open>getAll\<close> is caught and leaves the state as
  it is, as does a read that never settles; \<open>Inl\<close> is the exception of the updater.
\<close>

definition initializeData ::
  "idb_outcome \<Rightarrow> URLGroup list option \<Rightarrow> idb_outcome \<Rightarrow> App \<Rightarrow> js_exn + App" where
  "initializeData openOut savedMeta readOut app =
     (case initDB openOut of
        Resolved _ \<Rightarrow>
          (case getAllFilesFromDB readOut (files_db app) of
             Resolved dbFiles \<Rightarrow>
               (case reconcile savedMeta dbFiles of
                  Inr newGroups \<Rightarrow> Inr (app\<lparr>urlGroups := newGroups\<rparr>)
                | Inl e \<Rightarrow> Inl e)
           | _ \<Rightarrow> Inr app)
      | _ \<Rightarrow> Inr app)"

subsection \<open>Context assembly and the chat turn\<close>

text \<open>
  The \<open>for\<close> loop of \<open>handleSendMessage\<close> over the active sources. \<open>getFile\<close> is what
  \<open>await getFileFromDB(source.id)\<close> sees; a rejection is caught and logged; \<open>None\<close> means
  that an \<open>await\<close> never resumes.
\<close>

fun gatherContext ::
  "(js_string \<Rightarrow> StoredFile option promise) \<Rightarrow> ReferenceSource list \<Rightarrow>
   js_string list \<times> FileAttachment list \<Rightarrow> (js_string list \<times> FileAttachment list) option" where
  "gatherContext getFile [] (urls, filesToSend) = Some (urls, filesToSend)"
| "gatherContext getFile (source # rest) (urls, filesToSend) =
     (if src_type source = TUrl \<and> url source \<noteq> None \<and> url source \<noteq> Some []
      then gatherContext getFile rest (urls @ [the (url source)], filesToSend)
      else if src_type source = TFile
      then (case getFile (src_id source) of
              Resolved (Some dbFile) \<Rightarrow>
                gatherContext getFile rest
                  (urls, filesToSend @
                     [\<lparr>name = title source, mimeType = mimeType dbFile, data = data dbFile\<rparr>])
            | Resolved None \<Rightarrow> gatherContext getFile rest (urls, filesToSend)
            | Rejected \<Rightarrow> gatherContext getFile rest (urls, filesToSend)
            | Pending \<Rightarrow> None)
      else gatherContext getFile rest (urls, filesToSend))"

definition apology :: js_string where
  "apology = lit ''Apologies, I encountered a diplomatic communication error. Please ensure your files are valid and try again.''"

definition resolvePlaceholder ::
  "js_string \<Rightarrow> (ChatMessage \<Rightarrow> ChatMessage) \<Rightarrow> ChatMessage list \<Rightarrow> ChatMessage list" where
  "resolvePlaceholder placeholderMessageId upd prev =
     map (\<lambda>msg. if msg_id msg = placeholderMessageId then upd msg else msg) prev"

text \<open>
  \<open>handleSendMessage\<close>: the final state and whether the handler ran to its end.
  \<open>generate\<close> is \<open>generateContentWithUrlContext\<close> with its environment; \<open>t1\<close> to \<open>t4\<close> are
  the readings of \<open>Date.now()\<close>, \<open>new Date()\<close>, \<open>Date.now()\<close> and \<open>new Date()\<close>, in order.
  Every call of the generation client is recorded in \<open>requests\<close>.
\<close>

definition handleSendMessage ::
  "(js_string \<Rightarrow> StoredFile option promise) \<Rightarrow>
   (js_string \<Rightarrow> js_string list \<Rightarrow> FileAttachment list \<Rightarrow> js_string + GeminiResponse) \<Rightarrow>
   nat \<Rightarrow> nat \<Rightarrow> nat \<Rightarrow> nat \<Rightarrow> js_string \<Rightarrow> FileAttachment list \<Rightarrow> App \<Rightarrow> App \<times> bool" where
  "handleSendMessage getFile generate t1 t2 t3 t4 query tempAttachments app =
     (case activeSources app of
        None \<Rightarrow> (app, False)
      | Some srcs \<Rightarrow>
          (case gatherContext getFile srcs ([], tempAttachments) of
             None \<Rightarrow> (app\<lparr>isLoading := True\<rparr>, False)
           | Some (urls, filesToSend) \<Rightarrow>
               let userMessage =
                     \<lparr>msg_id = dec t1, msg_text = query, sender = USER, timestamp = t2,
                      msg_isLoading = None, urlContext = None,
                      attachments = Some tempAttachments\<rparr>;
                   placeholderMessageId = dec (t3 + 1);
                   placeholderMessage =
                     \<lparr>msg_id = placeholderMessageId, msg_text = [], sender = MODEL,
                      timestamp = t4, msg_isLoading = Some True, urlContext = None,
                      attachments = None\<rparr>;
                   sent = app\<lparr>isLoading := True,
                             chatMessages := (chatMessages app @ [userMessage]) @ [placeholderMessage],
                             requests := requests app @ [(query, urls, filesToSend)]\<rparr>
               in (case generate query urls filesToSend of
                    Inr response \<Rightarrow>
                      (sent\<lparr>chatMessages :=
                              resolvePlaceholder placeholderMessageId
                                (\<lambda>msg. msg\<lparr>msg_text := gr_text response,
                                           msg_isLoading := Some False,
                                           urlContext := urlContextMetadata response\<rparr>)
                                (chatMessages sent),
                            isLoading := False\<rparr>, True)
                  | Inl err \<Rightarrow>
                      (sent\<lparr>chatMessages :=
                              resolvePlaceholder placeholderMessageId
                                (\<lambda>msg. msg\<lparr>msg_text := apology, msg_isLoading := Some False\<rparr>)
                                (chatMessages sent),
                            isLoading := False\<rparr>, True))))"

section \<open>Library panel (components/KnowledgeBaseManager)\<close>

record KBState =
  currentUrlInput :: js_string
  showUrlInput :: bool
  error :: "js_string option"
  editingSourceId :: "js_string option"
  editTitleInput :: js_string

text \<open>\<open>editingSourceId && editTitleInput.trim()\<close>: \<open>null\<close> and the empty string are falsy.\<close>

definition saveEditing ::
  "(js_string \<Rightarrow> js_string \<Rightarrow> App \<Rightarrow> App) \<Rightarrow> KBState \<Rightarrow> App \<Rightarrow> KBState \<times> App" where
  "saveEditing onRenameSource kb app =
     (case editingSourceId kb of
        None \<Rightarrow> (kb, app)
      | Some sid \<Rightarrow>
          if sid \<noteq> [] \<and> trim (editTitleInput kb) \<noteq> []
          then (kb\<lparr>editingSourceId := None, editTitleInput := []\<rparr>,
                onRenameSource sid (trim (editTitleInput kb)) app)
          else (kb, app))"

text \<open>
  \<open>isValidUrl\<close> tries \<open>new URL(urlString)\<close>; the URL parser is the browser's, a parameter
  returning \<open>None\<close> when the constructor throws.
\<close>

definition isValidUrl :: "(js_string \<Rightarrow> 'u option) \<Rightarrow> js_string \<Rightarrow> bool" where
  "isValidUrl parseURL urlString = (case parseURL urlString of Some _ \<Rightarrow> True | None \<Rightarrow> False)"

text \<open>
  The handlers of the panel, with the props \<open>sources\<close> (here \<open>srcs\<close>), \<open>maxItems\<close> and the
  callbacks as arguments.
\<close>

definition handleAddUrl ::
  "(js_string \<Rightarrow> 'u option) \<Rightarrow> ReferenceSource list \<Rightarrow> nat \<Rightarrow> (js_string \<Rightarrow> App \<Rightarrow> App) \<Rightarrow>
   KBState \<Rightarrow> App \<Rightarrow> KBState \<times> App" where
  "handleAddUrl parseURL srcs maxItems onAddUrl kb app =
     (if trim (currentUrlInput kb) = []
      then (kb\<lparr>error := Some (lit ''URL cannot be empty.'')\<rparr>, app)
      else if \<not> isValidUrl parseURL (currentUrlInput kb)
      then (kb\<lparr>error := Some (lit ''Invalid URL format. Please include http:// or https://'')\<rparr>,
            app)
      else if length srcs \<ge> maxItems
      then (kb\<lparr>error := Some (lit ''Maximum limit reached.'')\<rparr>, app)
      else (kb\<lparr>currentUrlInput := [], showUrlInput := False, error := None\<rparr>,
            onAddUrl (currentUrlInput kb) app))"

definition handleFileSelect ::
  "ReferenceSource list \<Rightarrow> nat \<Rightarrow> (JsFile \<Rightarrow> App \<Rightarrow> App) \<Rightarrow> JsFile option \<Rightarrow>
   KBState \<Rightarrow> App \<Rightarrow> KBState \<times> App" where
  "handleFileSelect srcs maxItems onAddFile files0 kb app =
     (case files0 of
        None \<Rightarrow> (kb, app)
      | Some file \<Rightarrow>
          if js_type file \<noteq> lit ''application/pdf''
          then (kb\<lparr>error := Some (lit ''Only PDF files are currently supported for the library.'')\<rparr>,
                app)
          else if length srcs \<ge> maxItems
          then (kb\<lparr>error := Some (lit ''Maximum limit reached.'')\<rparr>, app)
          else (kb\<lparr>error := None\<rparr>, onAddFile file app))"

section \<open>Sequences of additions\<close>

datatype LibraryOp =
  AddUrl nat js_string js_string
| AddFile "js_string promise" nat js_string nat idb_outcome JsFile

fun applyOp :: "LibraryOp \<Rightarrow> App \<Rightarrow> App" where
  "applyOp (AddUrl now rnd u) app = handleAddSource now rnd u app"
| "applyOp (AddFile b64 now rnd day out file) app =
     handleAddPersistentFile b64 now rnd day out file app"

fun runOps :: "LibraryOp list \<Rightarrow> App \<Rightarrow> App" where
  "runOps [] app = app"
| "runOps (op # ops) app = runOps ops (applyOp op app)"

text \<open>The clock reading and random suffix an addition draws, with its kind.\<close>

fun opDraw :: "LibraryOp \<Rightarrow> bool \<times> nat \<times> js_string" where
  "opDraw (AddUrl now rnd u) = (False, now, rnd)"
| "opDraw (AddFile b64 now rnd day out file) = (True, now, rnd)"

fun opId :: "LibraryOp \<Rightarrow> js_string" where
  "opId (AddUrl now rnd u) = newId ''src-'' now rnd"
| "opId (AddFile b64 now rnd day out file) = newId ''file-'' now rnd"

definition allIds :: "URLGroup list \<Rightarrow> js_string list" where
  "allIds groups = concat (map (\<lambda>g. map src_id (sources g)) groups)"

definition allSources :: "URLGroup list \<Rightarrow> ReferenceSource list" where
  "allSources groups = concat (map sources groups)"

text \<open>
  A group \<open>g'\<close> keeps a group \<open>g\<close>: same id and name, and the descriptors of \<open>g\<close>, as
  they are, at the front of those of \<open>g'\<close>.
\<close>

definition keeps :: "URLGroup \<Rightarrow> URLGroup \<Rightarrow> bool" where
  "keeps g g' \<longleftrightarrow> group_id g' = group_id g \<and> group_name g' = group_name g \<and>
     prefix (sources g) (sources g')"

section \<open>The context assembler as the specification words it\<close>

text \<open>
  Start from the transient attachments; each descriptor of type url contributes its
  URL, each descriptor of type file whose blob is found contributes the blob's payload
  under the descriptor's title; anything else contributes nothing. \<open>settled\<close> reads a
  lookup that was rejected as an absent blob.
\<close>

definition settled :: "(js_string \<Rightarrow> StoredFile option promise) \<Rightarrow> js_string \<Rightarrow> StoredFile option" where
  "settled getFile k = (case getFile k of Resolved r \<Rightarrow> r | _ \<Rightarrow> None)"

definition urlOf :: "ReferenceSource \<Rightarrow> js_string option" where
  "urlOf s =
     (if src_type s = TUrl
      then (case url s of Some u \<Rightarrow> if u = [] then None else Some u | None \<Rightarrow> None)
      else None)"

definition attachmentOf :: "(js_string \<Rightarrow> StoredFile option) \<Rightarrow> ReferenceSource \<Rightarrow> FileAttachment option" where
  "attachmentOf lookup s =
     (if src_type s = TFile
      then map_option (\<lambda>blob. \<lparr>name = title s, mimeType = mimeType blob, data = data blob\<rparr>)
             (lookup (src_id s))
      else None)"

definition assemble ::
  "(js_string \<Rightarrow> StoredFile option) \<Rightarrow> FileAttachment list \<Rightarrow> ReferenceSource list \<Rightarrow>
   js_string list \<times> FileAttachment list" where
  "assemble lookup transient srcs =
     (List.map_filter urlOf srcs, transient @ List.map_filter (attachmentOf lookup) srcs)"

section \<open>A small library\<close>

text \<open>
  One group with a link and an uploaded document whose blob is in the store; used to
  run the handlers on concrete data.
\<close>

definition demo_url :: js_string where
  "demo_url = lit ''https://example.com/act.pdf''"

definition demo_link :: ReferenceSource where
  "demo_link =
     \<lparr>src_id = lit ''src-1-a'', src_type = TUrl, title = demo_url, url = Some demo_url,
      src_mimeType = None\<rparr>"

definition demo_doc :: ReferenceSource where
  "demo_doc =
     \<lparr>src_id = lit ''file-2-b'', src_type = TFile, title = lit ''reg.pdf'', url = None,
      src_mimeType = Some (lit ''application/pdf'')\<rparr>"

definition demo_blob :: StoredFile where
  "demo_blob =
     \<lparr>name = lit ''reg.pdf'', mimeType = lit ''application/pdf'', data = lit ''JVBERi0='',
      file_id = lit ''file-2-b'', date = 2\<rparr>"

definition demo_app :: App where
  "demo_app =
     \<lparr>urlGroups =
        [\<lparr>group_id = lit ''default-library'', group_name = lit ''My Knowledge Library'',
          sources = [demo_link, demo_doc]\<rparr>],
      activeUrlGroupId = lit ''default-library'', chatMessages = [], isLoading = False,
      files_db = [demo_blob], alerts = [], requests = []\<rparr>"

definition demo_kb :: KBState where
  "demo_kb =
     \<lparr>currentUrlInput = [], showUrlInput = False, error = None, editingSourceId = None,
      editTitleInput = []\<rparr>"

definition demo_file :: JsFile where
  "demo_file = \<lparr>js_name = lit ''act.pdf'', js_type = lit ''application/pdf''\<rparr>"

section \<open>Renaming\<close>

lemmas demo_defs =
  demo_url_def demo_link_def demo_doc_def demo_blob_def demo_app_def demo_kb_def demo_file_def


lemma trim_blank:
  assumes "\<forall>c \<in> set s. isWhiteSpace c"
  shows "trim s = []"
proof -
  from assms have h: "dropWhile isWhiteSpace s = []"
    by simp
  show ?thesis unfolding trim_def h by simp
qed

text \<open>With a title that is not blank, the panel hands the trimmed title to the handler.\<close>

lemma saveEditing_renames_trimmed:
  "editingSourceId kb = Some sid \<Longrightarrow> sid \<noteq> [] \<Longrightarrow> trim (editTitleInput kb) \<noteq> [] \<Longrightarrow>
   saveEditing handleRenameSource kb app =
     (kb\<lparr>editingSourceId := None, editTitleInput := []\<rparr>,
      handleRenameSource sid (trim (editTitleInput kb)) app)"
  by (simp add: saveEditing_def)

lemma find_rename:
  "find (\<lambda>s. src_id s = j) (map (\<lambda>s. if src_id s = i then s\<lparr>title := t\<rparr> else s) xs) =
   map_option (\<lambda>s. if src_id s = i then s\<lparr>title := t\<rparr> else s) (find (\<lambda>s. src_id s = j) xs)"
  by (induction xs) auto

lemma list_ex_rename:
  "list_ex (\<lambda>s. src_id s = j) (map (\<lambda>s. if src_id s = i then s\<lparr>title := t\<rparr> else s) xs) =
   list_ex (\<lambda>s. src_id s = j) xs"
  by (induction xs) auto

lemma findSource_rename:
  "findSource j (urlGroups (handleRenameSource i t app)) =
   map_option (\<lambda>s. if src_id s = i then s\<lparr>title := t\<rparr> else s) (findSource j (urlGroups app))"
proof -
  have "findSource j (map (\<lambda>g. g\<lparr>sources :=
              map (\<lambda>s. if src_id s = i then s\<lparr>title := t\<rparr> else s) (sources g)\<rparr>) gs) =
        map_option (\<lambda>s. if src_id s = i then s\<lparr>title := t\<rparr> else s) (findSource j gs)" for gs
    by (induction gs) (simp_all add: findSource_def list_ex_rename find_rename)
  then show ?thesis by (simp add: handleRenameSource_def)
qed

lemma findSource_Some_id: "findSource j gs = Some s \<Longrightarrow> src_id s = j"
  by (auto simp: findSource_def find_Some_iff split: option.splits)

text \<open>
  The handler by itself: a descriptor found under the id is found afterwards with the
  title handed over and all its other fields as they were; a lookup under any other id
  returns what it returned before; position by position every group keeps its id and name
  and every descriptor all its fields but the title of those renamed; the object store
  and the rest of the state are untouched.
\<close>

lemma handleRenameSource_frame:
  "(findSource i (urlGroups app) = Some s \<longrightarrow>
      findSource i (urlGroups (handleRenameSource i t app)) = Some (s\<lparr>title := t\<rparr>)) \<and>
   (j \<noteq> i \<longrightarrow>
      findSource j (urlGroups (handleRenameSource i t app)) = findSource j (urlGroups app)) \<and>
   list_all2 (\<lambda>g g'. group_id g' = group_id g \<and> group_name g' = group_name g \<and>
        list_all2 (\<lambda>s s'. src_id s' = src_id s \<and> src_type s' = src_type s \<and>
             url s' = url s \<and> src_mimeType s' = src_mimeType s \<and>
             title s' = (if src_id s = i then t else title s))
          (sources g) (sources g'))
     (urlGroups app) (urlGroups (handleRenameSource i t app)) \<and>
   files_db (handleRenameSource i t app) = files_db app \<and>
   (\<forall>k. idb_get k (files_db (handleRenameSource i t app)) = idb_get k (files_db app)) \<and>
   handleRenameSource i t app = app\<lparr>urlGroups := urlGroups (handleRenameSource i t app)\<rparr>"
proof -
  have a: "findSource i (urlGroups app) = Some s \<longrightarrow>
      findSource i (urlGroups (handleRenameSource i t app)) = Some (s\<lparr>title := t\<rparr>)"
    by (auto simp: findSource_rename dest: findSource_Some_id)
  have b: "j \<noteq> i \<longrightarrow>
      findSource j (urlGroups (handleRenameSource i t app)) = findSource j (urlGroups app)"
  proof (cases "findSource j (urlGroups app)")
    case None
    then show ?thesis by (simp add: findSource_rename)
  next
    case (Some s')
    then show ?thesis using findSource_Some_id [OF Some] by (simp add: findSource_rename)
  qed
  have c: "list_all2 (\<lambda>g g'. group_id g' = group_id g \<and> group_name g' = group_name g \<and>
        list_all2 (\<lambda>s s'. src_id s' = src_id s \<and> src_type s' = src_type s \<and>
             url s' = url s \<and> src_mimeType s' = src_mimeType s \<and>
             title s' = (if src_id s = i then t else title s))
          (sources g) (sources g'))
     (urlGroups app) (urlGroups (handleRenameSource i t app))"
    by (simp add: handleRenameSource_def list_all2_map2 list_all2_same)
  have d: "files_db (handleRenameSource i t app) = files_db app"
    by (simp add: handleRenameSource_def)
  have e: "handleRenameSource i t app = app\<lparr>urlGroups := urlGroups (handleRenameSource i t app)\<rparr>"
    by (simp add: handleRenameSource_def)
  from a b c d e show ?thesis by simp
qed

lemma trim_unpadded:
  assumes "t \<noteq> []" and "\<not> isWhiteSpace (hd t)" and "\<not> isWhiteSpace (last t)"
  shows "trim t = t"
proof -
  from assms(1,2) have a: "dropWhile isWhiteSpace t = t"
    by (cases t) simp_all
  from assms(1,3) have "dropWhile isWhiteSpace (rev t) = rev t"
    by (cases "rev t") (simp_all add: last_rev [symmetric, of "rev t", simplified] hd_rev [symmetric])
  with a show ?thesis by (simp add: trim_def)
qed

text \<open>
  C6, as the claim states it, fails: the rename box trims the title before it calls the
  handler, so the non-empty title \<open>" EU AI Act "\<close> is read back as \<open>"EU AI Act"\<close>.
\<close>

theorem rename_roundtrip_counterexample:
  "lit '' EU AI Act '' \<noteq> [] \<and>
   findSource (lit ''file-2-b'') (urlGroups demo_app) = Some demo_doc \<and>
   findSource (lit ''file-2-b'')
       (urlGroups (snd (saveEditing handleRenameSource
          (demo_kb\<lparr>editingSourceId := Some (lit ''file-2-b''),
             editTitleInput := lit '' EU AI Act ''\<rparr>) demo_app))) =
     Some (demo_doc\<lparr>title := lit ''EU AI Act''\<rparr>) \<and>
   lit ''EU AI Act'' \<noteq> lit '' EU AI Act ''"
  by (simp add: saveEditing_def trim_def isWhiteSpace_def handleRenameSource_def findSource_def
      demo_defs lit_def)

text \<open>
  C6, amended. Renaming goes through the rename box. For a source being edited whose id
  is not empty and an edited title \<open>t\<close> that is not blank, saving the edit calls the handler
  with the trimmed title: a descriptor found under the id before is found afterwards with
  title \<open>trim t\<close> and all its other fields as they were; a lookup under any other id
  returns what it returned before; position by position, every group keeps its id and
  name and every descriptor keeps its id, type, url and media type, and its title too
  unless its id is the renamed one; the object store (so every blob, with its name) and
  the rest of the state are untouched. The title read back is \<open>t\<close> itself when \<open>t\<close> neither
  starts nor ends with white space.
\<close>

theorem saveEditing_rename_roundtrip:
  "editingSourceId kb = Some i \<and> i \<noteq> [] \<and> editTitleInput kb = t \<and> trim t \<noteq> [] \<Longrightarrow>
   saveEditing handleRenameSource kb app =
     (kb\<lparr>editingSourceId := None, editTitleInput := []\<rparr>, handleRenameSource i (trim t) app) \<and>
   (findSource i (urlGroups app) = Some s \<longrightarrow>
      findSource i (urlGroups (snd (saveEditing handleRenameSource kb app))) =
        Some (s\<lparr>title := trim t\<rparr>)) \<and>
   (j \<noteq> i \<longrightarrow>
      findSource j (urlGroups (snd (saveEditing handleRenameSource kb app))) =
        findSource j (urlGroups app)) \<and>
   list_all2 (\<lambda>g g'. group_id g' = group_id g \<and> group_name g' = group_name g \<and>
        list_all2 (\<lambda>s s'. src_id s' = src_id s \<and> src_type s' = src_type s \<and>
             url s' = url s \<and> src_mimeType s' = src_mimeType s \<and>
             title s' = (if src_id s = i then trim t else title s))
          (sources g) (sources g'))
     (urlGroups app) (urlGroups (snd (saveEditing handleRenameSource kb app))) \<and>
   files_db (snd (saveEditing handleRenameSource kb app)) = files_db app \<and>
   (\<forall>k. idb_get k (files_db (snd (saveEditing handleRenameSource kb app))) =
        idb_get k (files_db app)) \<and>
   snd (saveEditing handleRenameSource kb app) =
     app\<lparr>urlGroups := urlGroups (snd (saveEditing handleRenameSource kb app))\<rparr> \<and>
   (\<not> isWhiteSpace (hd t) \<and> \<not> isWhiteSpace (last t) \<longrightarrow> trim t = t)"
proof -
  assume h: "editingSourceId kb = Some i \<and> i \<noteq> [] \<and> editTitleInput kb = t \<and> trim t \<noteq> []"
  then have e: "saveEditing handleRenameSource kb app =
     (kb\<lparr>editingSourceId := None, editTitleInput := []\<rparr>, handleRenameSource i (trim t) app)"
    by (simp add: saveEditing_def)
  from h have "t \<noteq> []" by (auto simp: trim_def)
  then have u: "\<not> isWhiteSpace (hd t) \<and> \<not> isWhiteSpace (last t) \<longrightarrow> trim t = t"
    by (simp add: trim_unpadded)
  from e have s: "snd (saveEditing handleRenameSource kb app) = handleRenameSource i (trim t) app"
    by simp
  from handleRenameSource_frame [of i app s "trim t" j] e u show ?thesis
    unfolding s by simp
qed

theorem saveEditing_rename_roundtrip_witness:
  "editingSourceId (demo_kb\<lparr>editingSourceId := Some (lit ''file-2-b''),
       editTitleInput := lit '' EU AI Act ''\<rparr>) = Some (lit ''file-2-b'') \<and>
   lit ''file-2-b'' \<noteq> [] \<and>
   editTitleInput (demo_kb\<lparr>editingSourceId := Some (lit ''file-2-b''),
       editTitleInput := lit '' EU AI Act ''\<rparr>) = lit '' EU AI Act '' \<and>
   trim (lit '' EU AI Act '') = lit ''EU AI Act'' \<and>
   findSource (lit ''file-2-b'') (urlGroups demo_app) = Some demo_doc \<and>
   lit ''src-1-a'' \<noteq> lit ''file-2-b'' \<and>
   findSource (lit ''file-2-b'')
       (urlGroups (snd (saveEditing handleRenameSource
          (demo_kb\<lparr>editingSourceId := Some (lit ''file-2-b''),
             editTitleInput := lit '' EU AI Act ''\<rparr>) demo_app))) =
     Some (demo_doc\<lparr>title := lit ''EU AI Act''\<rparr>) \<and>
   findSource (lit ''src-1-a'')
       (urlGroups (snd (saveEditing handleRenameSource
          (demo_kb\<lparr>editingSourceId := Some (lit ''file-2-b''),
             editTitleInput := lit '' EU AI Act ''\<rparr>) demo_app))) =
     Some demo_link \<and>
   idb_get (lit ''file-2-b'')
       (files_db (snd (saveEditing handleRenameSource
          (demo_kb\<lparr>editingSourceId := Some (lit ''file-2-b''),
             editTitleInput := lit '' EU AI Act ''\<rparr>) demo_app))) =
     Some demo_blob \<and>
   \<not> isWhiteSpace (hd (lit ''EU AI Act'')) \<and> \<not> isWhiteSpace (last (lit ''EU AI Act'')) \<and>
   trim (lit ''EU AI Act'') = lit ''EU AI Act''"
proof -
  let ?i = "lit ''file-2-b''"
  let ?t = "lit '' EU AI Act ''"
  let ?kb = "demo_kb\<lparr>editingSourceId := Some ?i, editTitleInput := ?t\<rparr>"
  let ?kb' = "demo_kb\<lparr>editingSourceId := Some ?i, editTitleInput := lit ''EU AI Act''\<rparr>"
  have tr: "trim ?t = lit ''EU AI Act''"
    by (simp add: trim_def isWhiteSpace_def lit_def)
  have h: "editingSourceId ?kb = Some ?i \<and> ?i \<noteq> [] \<and> editTitleInput ?kb = ?t \<and> trim ?t \<noteq> []"
    by (simp add: tr) (simp add: lit_def)
  have h': "editingSourceId ?kb' = Some ?i \<and> ?i \<noteq> [] \<and>
      editTitleInput ?kb' = lit ''EU AI Act'' \<and> trim (lit ''EU AI Act'') \<noteq> []"
    by (simp add: trim_def isWhiteSpace_def lit_def)
  have a: "findSource ?i (urlGroups demo_app) = Some demo_doc"
    by (simp add: findSource_def demo_defs lit_def)
  have b: "lit ''src-1-a'' \<noteq> ?i"
    by (simp add: lit_def)
  have c: "findSource (lit ''src-1-a'') (urlGroups demo_app) = Some demo_link"
    by (simp add: findSource_def demo_defs lit_def)
  have d: "idb_get ?i (files_db demo_app) = Some demo_blob"
    by (simp add: idb_get_def demo_defs)
  have w: "\<not> isWhiteSpace (hd (lit ''EU AI Act'')) \<and> \<not> isWhiteSpace (last (lit ''EU AI Act''))"
    by (simp add: isWhiteSpace_def lit_def)
  note r = saveEditing_rename_roundtrip
      [where kb = ?kb and i = ?i and t = ?t and app = demo_app and s = demo_doc and
        j = "lit ''src-1-a''", OF h]
  note r' = saveEditing_rename_roundtrip
      [where kb = ?kb' and i = ?i and t = "lit ''EU AI Act''" and app = demo_app and
        s = demo_doc and j = "lit ''src-1-a''", OF h']
  from r [THEN conjunct2, THEN conjunct1, THEN mp, OF a]
  have e: "findSource ?i (urlGroups (snd (saveEditing handleRenameSource ?kb demo_app))) =
      Some (demo_doc\<lparr>title := lit ''EU AI Act''\<rparr>)"
    by (simp only: tr)
  from r [THEN conjunct2, THEN conjunct2, THEN conjunct1, THEN mp, OF b] c
  have f: "findSource (lit ''src-1-a'')
      (urlGroups (snd (saveEditing handleRenameSource ?kb demo_app))) = Some demo_link"
    by (rule trans)
  from r [THEN conjunct2, THEN conjunct2, THEN conjunct2, THEN conjunct2, THEN conjunct2,
      THEN conjunct1, THEN spec, of ?i] d
  have g: "idb_get ?i (files_db (snd (saveEditing handleRenameSource ?kb demo_app))) =
      Some demo_blob"
    by (rule trans)
  from r' [THEN conjunct2, THEN conjunct2, THEN conjunct2, THEN conjunct2, THEN conjunct2,
      THEN conjunct2, THEN conjunct2, THEN mp, OF w]
  have k: "trim (lit ''EU AI Act'') = lit ''EU AI Act''" .
  from h have h1: "editingSourceId ?kb = Some ?i" and h2: "?i \<noteq> []"
    and h3: "editTitleInput ?kb = ?t" by blast+
  from h1 h2 h3 tr a b e f g w k show ?thesis by blast
qed

text \<open>
  C7. The rename box rejects a blank title: when every code unit of the edited title is
  white space (in particular when the title is empty), saving the edit leaves the whole
  application state, and so every group's descriptor list, as it was, whatever source is
  being edited; the rename handler is not called.
\<close>

theorem saveEditing_rejects_blank:
  "(\<forall>c \<in> set (editTitleInput kb). isWhiteSpace c) \<Longrightarrow>
   saveEditing handleRenameSource kb app = (kb, app) \<and>
   saveEditing onRenameSource kb app = (kb, app)"
  by (simp add: saveEditing_def trim_blank split: option.splits)

theorem saveEditing_rejects_blank_witness:
  "list_all isWhiteSpace
     (editTitleInput (demo_kb\<lparr>editingSourceId := Some (lit ''file-2-b''),
        editTitleInput := lit ''  ''\<rparr>)) \<and>
   saveEditing handleRenameSource
       (demo_kb\<lparr>editingSourceId := Some (lit ''file-2-b''), editTitleInput := lit ''  ''\<rparr>)
       demo_app =
     (demo_kb\<lparr>editingSourceId := Some (lit ''file-2-b''), editTitleInput := lit ''  ''\<rparr>,
      demo_app)"
proof -
  have h: "\<forall>c \<in> set (editTitleInput (demo_kb\<lparr>editingSourceId := Some (lit ''file-2-b''),
        editTitleInput := lit ''  ''\<rparr>)). isWhiteSpace c"
    by (simp add: lit_def isWhiteSpace_def)
  from saveEditing_rejects_blank [OF h] h show ?thesis by (simp only: list_all_iff)
qed

section \<open>Context assembly\<close>

lemma gatherContext_acc:
  "\<forall>s \<in> set srcs. src_type s = TFile \<longrightarrow> getFile (src_id s) \<noteq> Pending \<Longrightarrow>
   gatherContext getFile srcs (us, fs) =
     Some (us @ List.map_filter urlOf srcs, fs @ List.map_filter (attachmentOf (settled getFile)) srcs)"
proof (induction srcs arbitrary: us fs)
  case Nil
  show ?case by simp
next
  case (Cons s srcs)
  then have ih: "\<And>us fs. gatherContext getFile srcs (us, fs) =
     Some (us @ List.map_filter urlOf srcs, fs @ List.map_filter (attachmentOf (settled getFile)) srcs)"
    by simp
  from Cons.prems have np: "src_type s = TFile \<longrightarrow> getFile (src_id s) \<noteq> Pending" by simp
  show ?case
  proof (cases "src_type s")
    case TUrl
    then have a: "attachmentOf (settled getFile) s = None" by (simp add: attachmentOf_def settled_def)
    show ?thesis
    proof (cases "url s")
      case None
      with TUrl have "urlOf s = None" by (simp add: urlOf_def)
      with None TUrl a show ?thesis by (simp add: ih)
    next
      case (Some u)
      with TUrl have "urlOf s = (if u = [] then None else Some u)" by (simp add: urlOf_def)
      with Some TUrl a show ?thesis by (simp add: ih)
    qed
  next
    case TFile
    then have u: "urlOf s = None" by (simp add: urlOf_def)
    from TFile np have "getFile (src_id s) \<noteq> Pending" by simp
    then show ?thesis
    proof (cases "getFile (src_id s)")
      case (Resolved r)
      show ?thesis
      proof (cases r)
        case None
        with Resolved TFile have "attachmentOf (settled getFile) s = None" by (simp add: attachmentOf_def settled_def)
        with None Resolved TFile u show ?thesis by (simp add: ih)
      next
        case (Some blob)
        with Resolved TFile have "attachmentOf (settled getFile) s =
            Some \<lparr>name = title s, mimeType = mimeType blob, data = data blob\<rparr>"
          by (simp add: attachmentOf_def settled_def)
        with Some Resolved TFile u show ?thesis by (simp add: ih)
      qed
    next
      case Rejected
      with TFile have "attachmentOf (settled getFile) s = None" by (simp add: attachmentOf_def settled_def)
      with Rejected TFile u show ?thesis by (simp add: ih)
    next
      case Pending
      then show ?thesis using \<open>getFile (src_id s) \<noteq> Pending\<close> by simp
    qed
  qed
qed

lemma gatherContext_skip:
  "src_type s = TUrl \<Longrightarrow> url s = None \<or> url s = Some [] \<Longrightarrow>
   gatherContext getFile (pre @ s # post) (us, fs) = gatherContext getFile (pre @ post) (us, fs)"
proof (induction pre arbitrary: us fs)
  case Nil
  then show ?case by auto
next
  case (Cons x pre)
  then show ?case
    by (auto split: promise.splits option.splits)
qed

lemma idb_get_delete: "idb_get k (idb_delete k db) = None"
  by (simp add: idb_get_def idb_delete_def find_None_iff)

lemma settled_getFileFromDB: "settled (getFileFromDB IdbOk db) = (\<lambda>k. idb_get k db)"
  by (rule ext) (simp add: settled_def getFileFromDB_def)

lemma gatherContext_ok:
  "gatherContext (getFileFromDB IdbOk db) srcs (us, fs) =
     Some (us @ List.map_filter urlOf srcs, fs @ List.map_filter (attachmentOf (\<lambda>k. idb_get k db)) srcs)"
proof -
  have "\<forall>s \<in> set srcs. src_type s = TFile \<longrightarrow> getFileFromDB IdbOk db (src_id s) \<noteq> Pending"
    by (simp add: getFileFromDB_def)
  from gatherContext_acc [OF this] show ?thesis by (simp only: settled_getFileFromDB)
qed

text \<open>
  C3. With a working store, the loop returns exactly what the specification's assembler
  describes: the transient attachments first, then, descriptor by descriptor in order,
  the URL of a url descriptor and, for a file descriptor whose blob is found, the blob's
  media type and data under the descriptor's title; a dangling file descriptor adds
  nothing and the loop still returns. In particular a group of one url descriptor and
  one file descriptor, in either order, yields that one URL and one attachment after the
  transient ones when the blob exists, and that one URL and no further attachment when
  the blob is absent or has been deleted from the store.
\<close>

theorem gatherContext_assembles:
  "gatherContext (getFileFromDB IdbOk db) srcs ([], tempAttachments) =
     Some (assemble (\<lambda>k. idb_get k db) tempAttachments srcs) \<and>
   (src_type d1 = TUrl \<and> url d1 = Some u \<and> u \<noteq> [] \<and> src_type d2 = TFile \<longrightarrow>
      (idb_get (src_id d2) db = Some blob \<longrightarrow>
         gatherContext (getFileFromDB IdbOk db) [d1, d2] ([], tempAttachments) =
           Some ([u], tempAttachments @
                  [\<lparr>name = title d2, mimeType = mimeType blob, data = data blob\<rparr>]) \<and>
         gatherContext (getFileFromDB IdbOk db) [d2, d1] ([], tempAttachments) =
           Some ([u], tempAttachments @
                  [\<lparr>name = title d2, mimeType = mimeType blob, data = data blob\<rparr>])) \<and>
      (idb_get (src_id d2) db = None \<longrightarrow>
         gatherContext (getFileFromDB IdbOk db) [d1, d2] ([], tempAttachments) =
           Some ([u], tempAttachments) \<and>
         gatherContext (getFileFromDB IdbOk db) [d2, d1] ([], tempAttachments) =
           Some ([u], tempAttachments)) \<and>
      gatherContext (getFileFromDB IdbOk (idb_delete (src_id d2) db)) [d1, d2]
          ([], tempAttachments) = Some ([u], tempAttachments))"
proof -
  have g: "gatherContext (getFileFromDB IdbOk db) srcs ([], tempAttachments) =
     Some (assemble (\<lambda>k. idb_get k db) tempAttachments srcs)"
    by (simp add: gatherContext_ok assemble_def)
  have s: "src_type d1 = TUrl \<and> url d1 = Some u \<and> u \<noteq> [] \<and> src_type d2 = TFile \<longrightarrow>
      (idb_get (src_id d2) db = Some blob \<longrightarrow>
         gatherContext (getFileFromDB IdbOk db) [d1, d2] ([], tempAttachments) =
           Some ([u], tempAttachments @
                  [\<lparr>name = title d2, mimeType = mimeType blob, data = data blob\<rparr>]) \<and>
         gatherContext (getFileFromDB IdbOk db) [d2, d1] ([], tempAttachments) =
           Some ([u], tempAttachments @
                  [\<lparr>name = title d2, mimeType = mimeType blob, data = data blob\<rparr>])) \<and>
      (idb_get (src_id d2) db = None \<longrightarrow>
         gatherContext (getFileFromDB IdbOk db) [d1, d2] ([], tempAttachments) =
           Some ([u], tempAttachments) \<and>
         gatherContext (getFileFromDB IdbOk db) [d2, d1] ([], tempAttachments) =
           Some ([u], tempAttachments)) \<and>
      gatherContext (getFileFromDB IdbOk (idb_delete (src_id d2) db)) [d1, d2]
          ([], tempAttachments) = Some ([u], tempAttachments)"
    by (simp add: getFileFromDB_def idb_get_delete)
  from g s show ?thesis by (rule conjI)
qed

theorem gatherContext_assembles_witness:
  "src_type demo_link = TUrl \<and> url demo_link = Some demo_url \<and> demo_url \<noteq> [] \<and>
   src_type demo_doc = TFile \<and>
   idb_get (src_id demo_doc) [demo_blob] = Some demo_blob \<and>
   gatherContext (getFileFromDB IdbOk [demo_blob]) [demo_link, demo_doc] ([], []) =
     Some ([demo_url],
           [\<lparr>name = lit ''reg.pdf'', mimeType = lit ''application/pdf'', data = lit ''JVBERi0=''\<rparr>]) \<and>
   idb_get (src_id demo_doc) [] = None \<and>
   gatherContext (getFileFromDB IdbOk []) [demo_link, demo_doc] ([], []) = Some ([demo_url], [])"
proof -
  have a: "src_type demo_link = TUrl \<and> url demo_link = Some demo_url \<and> demo_url \<noteq> [] \<and>
      src_type demo_doc = TFile"
    by (simp add: demo_defs lit_def)
  have b: "idb_get (src_id demo_doc) [demo_blob] = Some demo_blob"
    by (simp add: demo_defs idb_get_def)
  have c: "idb_get (src_id demo_doc) [] = None"
    by (simp add: idb_get_def)
  note found = gatherContext_assembles
      [of "[demo_blob]" "[]" "[]" demo_link demo_url demo_doc demo_blob, THEN conjunct2, THEN mp, OF a]
  note absent = gatherContext_assembles
      [of "[]" "[]" "[]" demo_link demo_url demo_doc demo_blob, THEN conjunct2, THEN mp, OF a]
  from found [THEN conjunct1, THEN mp, OF b, THEN conjunct1]
  have d: "gatherContext (getFileFromDB IdbOk [demo_blob]) [demo_link, demo_doc] ([], []) =
     Some ([demo_url],
           [\<lparr>name = lit ''reg.pdf'', mimeType = lit ''application/pdf'', data = lit ''JVBERi0=''\<rparr>])"
    by (simp add: demo_doc_def demo_blob_def)
  from absent [THEN conjunct2, THEN conjunct1, THEN mp, OF c, THEN conjunct1]
  have e: "gatherContext (getFileFromDB IdbOk []) [demo_link, demo_doc] ([], []) = Some ([demo_url], [])"
    by simp
  from a b c d e show ?thesis by blast
qed

text \<open>
  C10. A url descriptor whose url field is absent or the empty string adds neither a URL
  nor an attachment: the loop over a source list containing it returns what it returns
  on the list without it, and on that descriptor alone it returns the accumulators as
  they were.
\<close>

theorem gatherContext_skips_url_without_url:
  "src_type s = TUrl \<and> (url s = None \<or> url s = Some []) \<Longrightarrow>
   gatherContext getFile (pre @ s # post) (urls, filesToSend) =
     gatherContext getFile (pre @ post) (urls, filesToSend) \<and>
   gatherContext getFile [s] (urls, filesToSend) = Some (urls, filesToSend)"
  using gatherContext_skip [of s getFile pre post urls filesToSend]
    gatherContext_skip [of s getFile "[]" "[]" urls filesToSend]
  by simp

theorem gatherContext_skips_url_without_url_witness:
  "src_type (demo_link\<lparr>url := None\<rparr>) = TUrl \<and>
   (url (demo_link\<lparr>url := None\<rparr>) = None \<or> url (demo_link\<lparr>url := None\<rparr>) = Some []) \<and>
   gatherContext (getFileFromDB IdbOk [demo_blob]) [demo_link\<lparr>url := None\<rparr>, demo_doc] ([], []) =
     gatherContext (getFileFromDB IdbOk [demo_blob]) [demo_doc] ([], []) \<and>
   gatherContext (getFileFromDB IdbOk [demo_blob]) [demo_link\<lparr>url := None\<rparr>] ([], []) = Some ([], [])"
  using gatherContext_skips_url_without_url
    [of "demo_link\<lparr>url := None\<rparr>" "getFileFromDB IdbOk [demo_blob]" "[]" "[demo_doc]" "[]" "[]"]
  by (simp add: demo_link_def)


section \<open>Startup reconciliation is idempotent\<close>

lemma group_ids_pushSource: "map group_id (pushSource i d gs) = map group_id gs"
  by (cases "i < length gs")
     (simp_all add: pushSource_def map_update list_update_same_conv list_update_beyond)

lemma length_pushSource: "length (pushSource i d gs) = length gs"
  by (simp add: pushSource_def)

lemma allIds_pushSource:
  assumes "i < length gs"
  shows "allIds (pushSource i d gs) =
         allIds (take i gs) @ (map src_id (sources (gs ! i)) @ [src_id d]) @ allIds (drop (Suc i) gs)"
proof -
  have "pushSource i d gs = take i gs @ [(gs ! i)\<lparr>sources := sources (gs ! i) @ [d]\<rparr>] @ drop (Suc i) gs"
    using assms by (simp add: pushSource_def upd_conv_take_nth_drop)
  then show ?thesis by (simp add: allIds_def)
qed

lemma allIds_split:
  assumes "i < length gs"
  shows "allIds gs = allIds (take i gs) @ map src_id (sources (gs ! i)) @ allIds (drop (Suc i) gs)"
proof -
  have "gs = take i gs @ [gs ! i] @ drop (Suc i) gs"
    using assms by (simp add: id_take_nth_drop [symmetric])
  then have "allIds gs = allIds (take i gs @ [gs ! i] @ drop (Suc i) gs)" by simp
  then show ?thesis by (simp add: allIds_def)
qed

lemma isKnown_allIds: "isKnown gs file \<longleftrightarrow> file_id file \<in> set (allIds gs)"
  unfolding isKnown_def allIds_def list_ex_iff by (simp add: image_iff) metis

lemma set_allIds_pushSource:
  "i < length gs \<Longrightarrow> set (allIds (pushSource i d gs)) = insert (src_id d) (set (allIds gs))"
  using allIds_pushSource [of i gs d] allIds_split [of i gs] by auto

lemma distinct_allIds_pushSource:
  "i < length gs \<Longrightarrow> distinct (allIds gs) \<Longrightarrow> src_id d \<notin> set (allIds gs) \<Longrightarrow>
   distinct (allIds (pushSource i d gs))"
  using allIds_pushSource [of i gs d] allIds_split [of i gs] by auto

lemma findIndex_less: "findIndex P xs = Some i \<Longrightarrow> i < length xs"
  by (induction xs arbitrary: i) (auto split: if_splits)

lemma findIndex_map: "findIndex P (map f xs) = findIndex (\<lambda>x. P (f x)) xs"
  by (induction xs) auto

lemma defaultGroup_less: "defaultGroup gs = Some i \<Longrightarrow> i < length gs"
  by (auto simp: defaultGroup_def split: option.splits if_splits dest: findIndex_less)

lemma defaultGroup_None: "defaultGroup gs = None \<longleftrightarrow> gs = []"
  by (auto simp: defaultGroup_def split: option.splits)

lemma defaultGroup_cong:
  assumes "map group_id gs' = map group_id gs"
  shows "defaultGroup gs' = defaultGroup gs"
proof -
  have "findIndex (\<lambda>g. group_id g = c) xs = findIndex (\<lambda>x. x = c) (map group_id xs)" for c and xs :: "URLGroup list"
    by (simp add: findIndex_map)
  with assms have "findIndex (\<lambda>g. group_id g = c) gs' = findIndex (\<lambda>g. group_id g = c) gs" for c
    by simp
  moreover from assms have "gs' = [] \<longleftrightarrow> gs = []" by (metis map_is_Nil_conv)
  ultimately show ?thesis by (simp add: defaultGroup_def)
qed

lemma forEachDbFile_known:
  "\<forall>f \<in> set fs. isKnown gs f \<Longrightarrow> forEachDbFile dg fs gs = Inr gs"
  by (induction fs) simp_all

lemma forEachDbFile_Some:
  "i < length gs \<Longrightarrow>
   \<exists>gs'. forEachDbFile (Some i) fs gs = Inr gs' \<and>
         map group_id gs' = map group_id gs \<and>
         set (allIds gs') = set (allIds gs) \<union> file_id ` set fs \<and>
         (distinct (allIds gs) \<longrightarrow> distinct (allIds gs'))"
proof (induction fs arbitrary: gs)
  case Nil
  then show ?case by simp
next
  case (Cons f fs)
  show ?case
  proof (cases "isKnown gs f")
    case True
    from Cons.IH [OF Cons.prems] obtain gs' where
      "forEachDbFile (Some i) fs gs = Inr gs'" "map group_id gs' = map group_id gs"
      "set (allIds gs') = set (allIds gs) \<union> file_id ` set fs"
      "distinct (allIds gs) \<longrightarrow> distinct (allIds gs')" by blast
    with True show ?thesis by (auto simp: isKnown_allIds)
  next
    case False
    let ?gs = "pushSource i (orphanSource f) gs"
    from Cons.prems have l: "i < length ?gs" by (simp add: length_pushSource)
    from Cons.IH [OF l] obtain gs' where g:
      "forEachDbFile (Some i) fs ?gs = Inr gs'" "map group_id gs' = map group_id ?gs"
      "set (allIds gs') = set (allIds ?gs) \<union> file_id ` set fs"
      "distinct (allIds ?gs) \<longrightarrow> distinct (allIds gs')" by blast
    have id: "src_id (orphanSource f) = file_id f" by (simp add: orphanSource_def)
    from False have nk: "file_id f \<notin> set (allIds gs)" by (simp add: isKnown_allIds)
    have "forEachDbFile (Some i) (f # fs) gs = Inr gs'"
      using False g(1) by simp
    moreover have "map group_id gs' = map group_id gs"
      using g(2) by (simp add: group_ids_pushSource)
    moreover have "set (allIds gs') = set (allIds gs) \<union> file_id ` set (f # fs)"
      using g(3) Cons.prems by (simp add: set_allIds_pushSource id)
    moreover have "distinct (allIds gs) \<longrightarrow> distinct (allIds gs')"
      using g(4) distinct_allIds_pushSource [OF Cons.prems, of "orphanSource f"] nk
      by (simp add: id)
    ultimately show ?thesis by blast
  qed
qed

text \<open>
  C4. Startup reconciliation is idempotent. Whenever the loaded group list is not empty
  (a missing document seeds the one default group) the updater returns a group list; and
  whenever it returns one, running it again on that list as the saved document, with the
  same blobs, returns the very same list: every blob is known by then, so no descriptor
  is synthesized twice. If the descriptor ids were distinct before, they still are.
\<close>

theorem reconcile_idempotent:
  "(loadGroups savedMeta \<noteq> [] \<longrightarrow> (\<exists>groups'. reconcile savedMeta dbFiles = Inr groups')) \<and>
   (reconcile savedMeta dbFiles = Inr groups' \<longrightarrow>
      reconcile (Some groups') dbFiles = Inr groups' \<and>
      (distinct (allIds (loadGroups savedMeta)) \<longrightarrow> distinct (allIds groups')))"
proof -
  let ?gs = "loadGroups savedMeta"
  have total: "\<exists>groups'. reconcile savedMeta dbFiles = Inr groups'" if "?gs \<noteq> []"
  proof -
    from that obtain i where i: "defaultGroup ?gs = Some i"
      using defaultGroup_None [of ?gs] by auto
    from forEachDbFile_Some [OF defaultGroup_less [OF i], of dbFiles] i
    show ?thesis by (auto simp: reconcile_def)
  qed
  have idem: "reconcile (Some groups') dbFiles = Inr groups' \<and>
      (distinct (allIds ?gs) \<longrightarrow> distinct (allIds groups'))"
    if r: "reconcile savedMeta dbFiles = Inr groups'"
  proof (cases "defaultGroup ?gs")
    case None
    then have e: "?gs = []" by (simp add: defaultGroup_None)
    with r None have "groups' = []"
      by (cases dbFiles) (simp_all add: reconcile_def isKnown_def)
    with r e None show ?thesis
      by (cases dbFiles) (simp_all add: reconcile_def isKnown_def loadGroups_def allIds_def)
  next
    case (Some i)
    from forEachDbFile_Some [OF defaultGroup_less [OF Some], of dbFiles] obtain gs' where g:
      "forEachDbFile (Some i) dbFiles ?gs = Inr gs'" "map group_id gs' = map group_id ?gs"
      "set (allIds gs') = set (allIds ?gs) \<union> file_id ` set dbFiles"
      "distinct (allIds ?gs) \<longrightarrow> distinct (allIds gs')" by blast
    with r Some have eq: "groups' = gs'" by (simp add: reconcile_def)
    from g(3) have "\<forall>f \<in> set dbFiles. isKnown gs' f" by (simp add: isKnown_allIds)
    then have "forEachDbFile (defaultGroup gs') dbFiles gs' = Inr gs'"
      by (rule forEachDbFile_known)
    with eq g(4) show ?thesis by (simp add: reconcile_def loadGroups_def)
  qed
  from total idem show ?thesis by blast
qed

theorem reconcile_idempotent_witness:
  "loadGroups (Some [\<lparr>group_id = lit ''default-library'', group_name = lit ''My Knowledge Library'',
        sources = [demo_link]\<rparr>]) \<noteq> [] \<and>
   reconcile (Some [\<lparr>group_id = lit ''default-library'', group_name = lit ''My Knowledge Library'',
        sources = [demo_link]\<rparr>]) [demo_blob] = Inr (urlGroups demo_app) \<and>
   reconcile (Some (urlGroups demo_app)) [demo_blob] = Inr (urlGroups demo_app) \<and>
   distinct (allIds (loadGroups (Some [\<lparr>group_id = lit ''default-library'',
        group_name = lit ''My Knowledge Library'', sources = [demo_link]\<rparr>]))) \<and>
   distinct (allIds (urlGroups demo_app))"
proof -
  let ?saved = "Some [\<lparr>group_id = lit ''default-library'', group_name = lit ''My Knowledge Library'',
        sources = [demo_link]\<rparr>]"
  have a: "loadGroups ?saved \<noteq> []"
    by (simp add: loadGroups_def)
  have b: "reconcile ?saved [demo_blob] = Inr (urlGroups demo_app)"
    by (simp add: reconcile_def loadGroups_def defaultGroup_def isKnown_def orphanSource_def
        pushSource_def demo_defs lit_def)
  have c: "distinct (allIds (loadGroups ?saved))"
    by (simp add: loadGroups_def allIds_def)
  from reconcile_idempotent [of ?saved "[demo_blob]" "urlGroups demo_app"] b c
  have "reconcile (Some (urlGroups demo_app)) [demo_blob] = Inr (urlGroups demo_app) \<and>
      distinct (allIds (urlGroups demo_app))"
    by blast
  with a b c show ?thesis by blast
qed

text \<open>With a working store, \<open>initializeData\<close> commits what the updater returns.\<close>

lemma initializeData_reconciles:
  "initializeData IdbOk savedMeta IdbOk app =
     (case reconcile savedMeta (files_db app) of
        Inr newGroups \<Rightarrow> Inr (app\<lparr>urlGroups := newGroups\<rparr>)
      | Inl e \<Rightarrow> Inl e)"
  by (simp add: initializeData_def initDB_def getAllFilesFromDB_def)

text \<open>
  The one case in which the updater does not return: an empty saved group list with a
  blob in the store has no default group to push to.
\<close>

lemma reconcile_empty_groups: "reconcile (Some []) [demo_blob] = Inl TypeError"
  by (simp add: reconcile_def loadGroups_def defaultGroup_def isKnown_def)


section \<open>Removing a source is idempotent\<close>

lemma findSource_removed:
  "findSource sid (urlGroups (removeFromGroups sid app)) = None"
proof -
  have "find (\<lambda>g. list_ex (\<lambda>s. src_id s = sid) (sources g))
          (map (\<lambda>g. g\<lparr>sources := filter (\<lambda>s. src_id s \<noteq> sid) (sources g)\<rparr>) gs) = None"
    for gs :: "URLGroup list"
    by (simp add: find_None_iff list_ex_iff)
  then show ?thesis by (simp add: findSource_def removeFromGroups_def)
qed

lemma removeFromGroups_twice:
  "removeFromGroups sid (removeFromGroups sid app) = removeFromGroups sid app"
  by (simp add: removeFromGroups_def comp_def)

lemma allIds_removed: "sid \<notin> set (allIds (urlGroups (removeFromGroups sid app)))"
  by (auto simp: allIds_def removeFromGroups_def)

lemma handleRemoveSource_absent:
  "findSource sid (urlGroups app) = None \<Longrightarrow>
   handleRemoveSource out sid app = (removeFromGroups sid app, True)"
  by (simp add: handleRemoveSource_def)

lemma handleRemoveSource_done:
  assumes "handleRemoveSource out sid app = (app', True)"
  shows "app' = removeFromGroups sid app \<or>
         app' = removeFromGroups sid (app\<lparr>files_db := idb_delete sid (files_db app)\<rparr>)"
proof (cases "findSource sid (urlGroups app)")
  case None
  with assms show ?thesis by (simp add: handleRemoveSource_def)
next
  case (Some s)
  with assms show ?thesis
    by (cases out) (auto simp: handleRemoveSource_def deleteFileFromDB_def split: if_splits)
qed

text \<open>
  C5. Removing a source is idempotent. A call whose store request settles (the store
  answers, with success or with an error) runs to its end; and once a call has run to its
  end, a second call with the same id, whatever the store answers then, ends in exactly
  the state the first one left: the same group list, the same object store and everything
  else. The second call finds no descriptor, so it issues no delete and its filter
  removes nothing. After the first call no descriptor with the id is left.
\<close>

theorem handleRemoveSource_idempotent:
  "(out \<noteq> IdbOpenFailed \<longrightarrow> snd (handleRemoveSource out sourceId app)) \<and>
   (handleRemoveSource out sourceId app = (app', True) \<longrightarrow>
      handleRemoveSource out2 sourceId app' = (app', True) \<and>
      sourceId \<notin> set (allIds (urlGroups app')))"
proof -
  have a: "snd (handleRemoveSource out sourceId app)" if "out \<noteq> IdbOpenFailed"
    using that
    by (cases out) (simp_all add: handleRemoveSource_def deleteFileFromDB_def split: option.splits)
  have b: "handleRemoveSource out2 sourceId app' = (app', True) \<and>
      sourceId \<notin> set (allIds (urlGroups app'))"
    if h: "handleRemoveSource out sourceId app = (app', True)"
  proof -
    from handleRemoveSource_done [OF h] obtain a where
      e: "app' = removeFromGroups sourceId a" by blast
    then have "findSource sourceId (urlGroups app') = None"
      by (simp add: findSource_removed)
    then have "handleRemoveSource out2 sourceId app' = (removeFromGroups sourceId app', True)"
      by (rule handleRemoveSource_absent)
    with e show ?thesis by (simp add: removeFromGroups_twice allIds_removed)
  qed
  from a b show ?thesis by blast
qed

theorem handleRemoveSource_idempotent_witness:
  "IdbOk \<noteq> IdbOpenFailed \<and>
   snd (handleRemoveSource IdbOk (lit ''file-2-b'') demo_app) \<and>
   handleRemoveSource IdbOk (lit ''file-2-b'') demo_app =
     (demo_app\<lparr>urlGroups := [\<lparr>group_id = lit ''default-library'',
          group_name = lit ''My Knowledge Library'', sources = [demo_link]\<rparr>],
        files_db := []\<rparr>, True) \<and>
   handleRemoveSource IdbTxError (lit ''file-2-b'')
       (demo_app\<lparr>urlGroups := [\<lparr>group_id = lit ''default-library'',
          group_name = lit ''My Knowledge Library'', sources = [demo_link]\<rparr>],
        files_db := []\<rparr>) =
     (demo_app\<lparr>urlGroups := [\<lparr>group_id = lit ''default-library'',
          group_name = lit ''My Knowledge Library'', sources = [demo_link]\<rparr>],
        files_db := []\<rparr>, True)"
proof -
  let ?app' = "demo_app\<lparr>urlGroups := [\<lparr>group_id = lit ''default-library'',
          group_name = lit ''My Knowledge Library'', sources = [demo_link]\<rparr>],
        files_db := []\<rparr>"
  have a: "IdbOk \<noteq> IdbOpenFailed" by simp
  have b: "handleRemoveSource IdbOk (lit ''file-2-b'') demo_app = (?app', True)"
    by (simp add: handleRemoveSource_def findSource_def deleteFileFromDB_def idb_delete_def
        removeFromGroups_def demo_defs lit_def)
  note t = handleRemoveSource_idempotent [of IdbOk "lit ''file-2-b''" demo_app ?app' IdbTxError]
  from t a have c: "snd (handleRemoveSource IdbOk (lit ''file-2-b'') demo_app)" by blast
  from t b have d: "handleRemoveSource IdbTxError (lit ''file-2-b'') ?app' = (?app', True)" by blast
  from a b c d show ?thesis by blast
qed

section \<open>Adding sources\<close>

lemma find_appended:
  "find (\<lambda>g. group_id g = a)
     (map (\<lambda>g. if group_id g = a then g\<lparr>sources := sources g @ [d]\<rparr> else g) gs) =
   map_option (\<lambda>g. g\<lparr>sources := sources g @ [d]\<rparr>) (find (\<lambda>g. group_id g = a) gs)"
  for gs :: "URLGroup list"
  by (induction gs) auto

lemma activeGroup_found:
  assumes "activeGroup app = Some g" and "group_id g = activeUrlGroupId app"
  shows "find (\<lambda>h. group_id h = activeUrlGroupId app) (urlGroups app) = Some g"
proof (cases "find (\<lambda>h. group_id h = activeUrlGroupId app) (urlGroups app)")
  case None
  with assms(1) obtain gs where "urlGroups app = g # gs"
    by (auto simp: activeGroup_def split: list.splits)
  with assms(2) None show ?thesis by simp
next
  case (Some h)
  with assms(1) show ?thesis by (simp add: activeGroup_def)
qed

lemma activeSources_appendToActive:
  assumes "activeGroup app = Some g" and "group_id g = activeUrlGroupId app"
  shows "activeSources (appendToActive d app) = Some (sources g @ [d])"
  using activeGroup_found [OF assms]
  by (simp add: activeSources_def activeGroup_def appendToActive_def find_appended)

lemma set_allIds_appended:
  "set (allIds (map (\<lambda>g. if group_id g = a then g\<lparr>sources := sources g @ [d]\<rparr> else g) gs)) =
   set (allIds gs) \<union> (if a \<in> group_id ` set gs then {src_id d} else {})"
  for gs :: "URLGroup list"
  by (induction gs) (auto simp: allIds_def)

lemma set_allIds_appendToActive:
  "set (allIds (urlGroups (appendToActive d app))) =
   set (allIds (urlGroups app)) \<union>
     (if activeUrlGroupId app \<in> group_id ` set (urlGroups app) then {src_id d} else {})"
  by (simp add: appendToActive_def set_allIds_appended)

lemma allIds_allSources: "allIds gs = map src_id (allSources gs)"
  by (simp add: allIds_def allSources_def map_concat comp_def)

lemma set_allSources_appended:
  "set (allSources (map (\<lambda>g. if group_id g = a then g\<lparr>sources := sources g @ [d]\<rparr> else g) gs)) =
   set (allSources gs) \<union> (if a \<in> group_id ` set gs then {d} else {})"
  for gs :: "URLGroup list"
  by (induction gs) (auto simp: allSources_def)

lemma set_allSources_appendToActive:
  "set (allSources (urlGroups (appendToActive d app))) =
   set (allSources (urlGroups app)) \<union>
     (if activeUrlGroupId app \<in> group_id ` set (urlGroups app) then {d} else {})"
  by (simp add: appendToActive_def set_allSources_appended)

lemma appendToActive_groups:
  "list_all2 (\<lambda>h h'. h' = (if group_id h = activeUrlGroupId app
                             then h\<lparr>sources := sources h @ [d]\<rparr> else h))
     (urlGroups app) (urlGroups (appendToActive d app))"
  by (simp add: appendToActive_def list_all2_map2 list_all2_same)

lemma find_insort_other:
  "\<not> P x \<Longrightarrow> find P (insort_key k x xs) = find P xs"
  by (induction xs) auto

lemma find_insort_first:
  "P x \<Longrightarrow> \<forall>y \<in> set xs. \<not> P y \<Longrightarrow> find P (insort_key k x xs) = Some x"
  by (induction xs) auto

lemma find_filter_other:
  "(\<And>y. P y \<Longrightarrow> Q y) \<Longrightarrow> find P (filter Q xs) = find P xs"
  by (induction xs) auto

lemma idb_get_put:
  "idb_get k (idb_put f db) = (if k = file_id f then Some f else idb_get k db)"
proof (cases "k = file_id f")
  case True
  then show ?thesis
    by (simp add: idb_get_def idb_put_def find_insort_first)
next
  case False
  then have "find (\<lambda>g. file_id g = k) (insort_key file_id f (filter (\<lambda>g. file_id g \<noteq> file_id f) db)) =
      find (\<lambda>g. file_id g = k) (filter (\<lambda>g. file_id g \<noteq> file_id f) db)"
    by (intro find_insort_other) auto
  also have "\<dots> = find (\<lambda>g. file_id g = k) db"
    using False by (intro find_filter_other) auto
  finally show ?thesis using False by (simp add: idb_get_def idb_put_def)
qed

lemma activeGroup_files_db: "activeGroup (app\<lparr>files_db := db\<rparr>) = activeGroup app"
  by (simp add: activeGroup_def split: option.splits)

lemma active_in_groups:
  assumes "activeGroup app = Some g" and "group_id g = activeUrlGroupId app"
  shows "activeUrlGroupId app \<in> group_id ` set (urlGroups app)"
proof -
  from activeGroup_found [OF assms] have "g \<in> set (urlGroups app)"
    by (auto simp: find_Some_iff)
  with assms(2) show ?thesis by force
qed

text \<open>
  C2. Adding a link. Let the active group be found under the active id, and let the URL
  box hold a string that the URL parser accepts (such a string is never blank). Below
  the maximum item count, the panel clears the box and calls the add handler, after which
  the active group's sources are the old ones followed by exactly one new descriptor of
  type url whose url and title are both the string entered; groups with another id and
  the object store are unchanged. At or above the maximum, the state is unchanged and the
  panel reports that the maximum limit is reached.
\<close>

theorem handleAddUrl_appends:
  "activeGroup app = Some g \<and> group_id g = activeUrlGroupId app \<and> currentUrlInput kb = u \<and>
   parseURL u \<noteq> None \<and> trim u \<noteq> [] \<Longrightarrow>
   (length (sources g) < maxItems \<longrightarrow>
      handleAddUrl parseURL (sources g) maxItems (handleAddSource now rnd) kb app =
        (kb\<lparr>currentUrlInput := [], showUrlInput := False, error := None\<rparr>,
         handleAddSource now rnd u app) \<and>
      activeSources (handleAddSource now rnd u app) =
        Some (sources g @
          [\<lparr>src_id = newId ''src-'' now rnd, src_type = TUrl, title = u, url = Some u,
            src_mimeType = None\<rparr>]) \<and>
      list_all2 (\<lambda>h h'. h' = (if group_id h = activeUrlGroupId app
             then h\<lparr>sources := sources h @
               [\<lparr>src_id = newId ''src-'' now rnd, src_type = TUrl, title = u, url = Some u,
                 src_mimeType = None\<rparr>]\<rparr>
             else h))
        (urlGroups app) (urlGroups (handleAddSource now rnd u app)) \<and>
      files_db (handleAddSource now rnd u app) = files_db app) \<and>
   (maxItems \<le> length (sources g) \<longrightarrow>
      handleAddUrl parseURL (sources g) maxItems (handleAddSource now rnd) kb app =
        (kb\<lparr>error := Some (lit ''Maximum limit reached.'')\<rparr>, app))"
proof -
  assume h: "activeGroup app = Some g \<and> group_id g = activeUrlGroupId app \<and>
    currentUrlInput kb = u \<and> parseURL u \<noteq> None \<and> trim u \<noteq> []"
  then have ag: "activeGroup app = Some g" and gid: "group_id g = activeUrlGroupId app"
    and valid: "isValidUrl parseURL (currentUrlInput kb)" and ne: "trim (currentUrlInput kb) \<noteq> []"
    and cu: "currentUrlInput kb = u"
    by (auto simp: isValidUrl_def)
  let ?d = "\<lparr>src_id = newId ''src-'' now rnd, src_type = TUrl, title = u, url = Some u,
            src_mimeType = None\<rparr>"
  have a: "handleAddUrl parseURL (sources g) maxItems (handleAddSource now rnd) kb app =
        (kb\<lparr>currentUrlInput := [], showUrlInput := False, error := None\<rparr>,
         handleAddSource now rnd u app)" if "length (sources g) < maxItems"
    using that valid ne cu by (simp add: handleAddUrl_def)
  have b: "activeSources (handleAddSource now rnd u app) = Some (sources g @ [?d])"
    unfolding handleAddSource_def by (rule activeSources_appendToActive [OF ag gid])
  have c: "list_all2 (\<lambda>h h'. h' = (if group_id h = activeUrlGroupId app
             then h\<lparr>sources := sources h @ [?d]\<rparr> else h))
        (urlGroups app) (urlGroups (handleAddSource now rnd u app))"
    unfolding handleAddSource_def by (rule appendToActive_groups)
  have d: "files_db (handleAddSource now rnd u app) = files_db app"
    by (simp add: handleAddSource_def appendToActive_def)
  have e: "handleAddUrl parseURL (sources g) maxItems (handleAddSource now rnd) kb app =
        (kb\<lparr>error := Some (lit ''Maximum limit reached.'')\<rparr>, app)"
    if "maxItems \<le> length (sources g)"
    using that valid ne by (simp add: handleAddUrl_def)
  from a b c d e show ?thesis by blast
qed


theorem handleAddUrl_appends_witness:
  "activeGroup demo_app = Some (hd (urlGroups demo_app)) \<and>
   group_id (hd (urlGroups demo_app)) = activeUrlGroupId demo_app \<and>
   currentUrlInput (demo_kb\<lparr>currentUrlInput := lit ''https://example.com/law''\<rparr>) =
     lit ''https://example.com/law'' \<and>
   (\<lambda>s. if s = [] then None else Some s) (lit ''https://example.com/law'') \<noteq> None \<and>
   trim (lit ''https://example.com/law'') \<noteq> [] \<and>
   length (sources (hd (urlGroups demo_app))) < MAX_ITEMS \<and>
   activeSources (handleAddSource 1700000000000 (lit ''k3j2h1g0f'') (lit ''https://example.com/law'')
       demo_app) =
     Some [demo_link, demo_doc,
       \<lparr>src_id = newId ''src-'' 1700000000000 (lit ''k3j2h1g0f''), src_type = TUrl,
        title = lit ''https://example.com/law'', url = Some (lit ''https://example.com/law''),
        src_mimeType = None\<rparr>] \<and>
   (2::nat) \<le> length (sources (hd (urlGroups demo_app))) \<and>
   handleAddUrl (\<lambda>s. if s = [] then None else Some s) (sources (hd (urlGroups demo_app))) 2
       (handleAddSource 1700000000000 (lit ''k3j2h1g0f''))
       (demo_kb\<lparr>currentUrlInput := lit ''https://example.com/law''\<rparr>) demo_app =
     (demo_kb\<lparr>currentUrlInput := lit ''https://example.com/law'',
        error := Some (lit ''Maximum limit reached.'')\<rparr>, demo_app)"
proof -
  let ?g = "hd (urlGroups demo_app)"
  let ?u = "lit ''https://example.com/law''"
  let ?kb = "demo_kb\<lparr>currentUrlInput := ?u\<rparr>"
  let ?p = "\<lambda>s::js_string. if s = [] then None else Some s"
  have h: "activeGroup demo_app = Some ?g \<and> group_id ?g = activeUrlGroupId demo_app \<and>
      currentUrlInput ?kb = ?u \<and> ?p ?u \<noteq> None \<and> trim ?u \<noteq> []"
    by (simp add: activeGroup_def demo_app_def lit_def trim_def isWhiteSpace_def)
  have l: "length (sources ?g) < MAX_ITEMS" by (simp add: demo_app_def MAX_ITEMS_def)
  have f: "(2::nat) \<le> length (sources ?g)" by (simp add: demo_app_def)
  note below = handleAddUrl_appends
      [where app = demo_app and g = ?g and kb = ?kb and u = ?u and parseURL = ?p and
        maxItems = MAX_ITEMS and now = 1700000000000 and rnd = "lit ''k3j2h1g0f''",
        OF h, THEN conjunct1, THEN mp, OF l]
  note full = handleAddUrl_appends
      [where app = demo_app and g = ?g and kb = ?kb and u = ?u and parseURL = ?p and
        maxItems = 2 and now = 1700000000000 and rnd = "lit ''k3j2h1g0f''",
        OF h, THEN conjunct2, THEN mp, OF f]
  from below have a: "activeSources (handleAddSource 1700000000000 (lit ''k3j2h1g0f'') ?u demo_app) =
     Some [demo_link, demo_doc,
       \<lparr>src_id = newId ''src-'' 1700000000000 (lit ''k3j2h1g0f''), src_type = TUrl,
        title = ?u, url = Some ?u, src_mimeType = None\<rparr>]"
    by (simp add: demo_app_def)
  from full have b: "handleAddUrl ?p (sources ?g) 2
       (handleAddSource 1700000000000 (lit ''k3j2h1g0f'')) ?kb demo_app =
     (demo_kb\<lparr>currentUrlInput := ?u, error := Some (lit ''Maximum limit reached.'')\<rparr>, demo_app)"
    by simp
  from h l f a b show ?thesis by blast
qed

lemma handleAddPersistentFile_core:
  "activeGroup app = Some g \<and> group_id g = activeUrlGroupId app \<and>
   newId ''file-'' now rnd \<notin> set (allIds (urlGroups app)) \<Longrightarrow>
   (\<forall>st \<in> set (app # fst (handleAddPersistentFile_steps b64 now rnd day out file app)).
      newId ''file-'' now rnd \<in> set (allIds (urlGroups st)) \<longrightarrow>
      (\<exists>base64. b64 = Resolved base64 \<and>
         idb_get (newId ''file-'' now rnd) (files_db st) =
           Some (storedFileOf base64 now rnd day file))) \<and>
   (\<forall>st \<in> set (app # fst (handleAddPersistentFile_steps b64 now rnd day out file app)).
      \<forall>s \<in> set (allSources (urlGroups st)).
        src_id s = newId ''file-'' now rnd \<longrightarrow> s = fileSourceOf now rnd file) \<and>
   (fileSourceOf now rnd file \<in>
        set (allSources (urlGroups (handleAddPersistentFile b64 now rnd day out file app))) \<longleftrightarrow>
      (\<exists>base64. b64 = Resolved base64) \<and> out = IdbOk) \<and>
   (newId ''file-'' now rnd \<in>
        set (allIds (urlGroups (handleAddPersistentFile b64 now rnd day out file app))) \<longleftrightarrow>
      (\<exists>base64. b64 = Resolved base64) \<and> out = IdbOk) \<and>
   (\<not> ((\<exists>base64. b64 = Resolved base64) \<and> out = IdbOk) \<longrightarrow>
      (\<forall>st \<in> set (fst (handleAddPersistentFile_steps b64 now rnd day out file app)).
         urlGroups st = urlGroups app)) \<and>
   (b64 = Resolved base64 \<and> out = IdbOk \<longrightarrow>
      activeSources (handleAddPersistentFile b64 now rnd day out file app) =
        Some (sources g @ [fileSourceOf now rnd file]) \<and>
      idb_get (newId ''file-'' now rnd)
          (files_db (handleAddPersistentFile b64 now rnd day out file app)) =
        Some (storedFileOf base64 now rnd day file)) \<and>
   (js_type file = lit ''application/pdf'' \<and> length (sources g) < maxItems \<longrightarrow>
      handleFileSelect (sources g) maxItems (handleAddPersistentFile b64 now rnd day out)
          (Some file) kb app =
        (kb\<lparr>error := None\<rparr>, handleAddPersistentFile b64 now rnd day out file app))"
proof -
  assume h: "activeGroup app = Some g \<and> group_id g = activeUrlGroupId app \<and>
    newId ''file-'' now rnd \<notin> set (allIds (urlGroups app))"
  then have ag: "activeGroup app = Some g" and gid: "group_id g = activeUrlGroupId app"
    and fresh: "newId ''file-'' now rnd \<notin> set (allIds (urlGroups app))"
    by auto
  let ?id = "newId ''file-'' now rnd"
  let ?d = "fileSourceOf now rnd file"
  have did: "src_id ?d = ?id" by (simp add: fileSourceOf_def)
  have sid: "file_id (storedFileOf base64 now rnd day file) = ?id" for base64
    by (simp add: storedFileOf_def)
  have inG: "activeUrlGroupId app \<in> group_id ` set (urlGroups app)"
    by (rule active_in_groups [OF ag gid])
  have failed: "\<forall>st \<in> set (fst (handleAddPersistentFile_steps b64 now rnd day out file app)).
         urlGroups st = urlGroups app"
    if "\<not> ((\<exists>base64. b64 = Resolved base64) \<and> out = IdbOk)"
    using that
    by (cases b64; cases out) (simp_all add: handleAddPersistentFile_steps_def saveFileToDB_def)
  have ok_steps: "fst (handleAddPersistentFile_steps (Resolved base64) now rnd day IdbOk file app) =
      [app\<lparr>files_db := idb_put (storedFileOf base64 now rnd day file) (files_db app)\<rparr>,
       appendToActive ?d
         (app\<lparr>files_db := idb_put (storedFileOf base64 now rnd day file) (files_db app)\<rparr>)]"
    for base64
    by (simp add: handleAddPersistentFile_steps_def saveFileToDB_def)
  have ok_in: "?id \<in> set (allIds (urlGroups (appendToActive ?d (app\<lparr>files_db := db\<rparr>))))" for db
    using inG by (simp add: set_allIds_appendToActive did)
  have ok_db: "files_db (appendToActive ?d (app\<lparr>files_db := db\<rparr>)) = db" for db
    by (simp add: appendToActive_def)
  have c1: "\<forall>st \<in> set (app # fst (handleAddPersistentFile_steps b64 now rnd day out file app)).
      ?id \<in> set (allIds (urlGroups st)) \<longrightarrow>
      (\<exists>base64. b64 = Resolved base64 \<and>
         idb_get ?id (files_db st) = Some (storedFileOf base64 now rnd day file))"
  proof (cases "(\<exists>base64. b64 = Resolved base64) \<and> out = IdbOk")
    case True
    then obtain base64 where b: "b64 = Resolved base64" and o: "out = IdbOk" by blast
    show ?thesis
      unfolding b o ok_steps using fresh
      by (simp add: ok_db idb_get_put sid)
  next
    case False
    from failed [OF False] fresh show ?thesis by auto
  qed
  have c2: "?id \<in> set (allIds (urlGroups (handleAddPersistentFile b64 now rnd day out file app))) \<longleftrightarrow>
      (\<exists>base64. b64 = Resolved base64) \<and> out = IdbOk"
  proof (cases "(\<exists>base64. b64 = Resolved base64) \<and> out = IdbOk")
    case True
    then obtain base64 where b: "b64 = Resolved base64" and o: "out = IdbOk" by blast
    show ?thesis
      unfolding handleAddPersistentFile_def b o ok_steps using ok_in by simp
  next
    case False
    have "urlGroups (handleAddPersistentFile b64 now rnd day out file app) = urlGroups app"
    proof (cases "fst (handleAddPersistentFile_steps b64 now rnd day out file app) = []")
      case True
      then show ?thesis by (simp add: handleAddPersistentFile_def)
    next
      case ne: False
      then have "last (app # fst (handleAddPersistentFile_steps b64 now rnd day out file app)) \<in>
          set (fst (handleAddPersistentFile_steps b64 now rnd day out file app))"
        by simp
      with failed [OF False] show ?thesis by (simp add: handleAddPersistentFile_def)
    qed
    with False fresh show ?thesis by simp
  qed
  have fresh': "\<forall>s \<in> set (allSources (urlGroups app)). src_id s \<noteq> ?id"
    using fresh unfolding allIds_allSources by force
  have c0: "\<forall>st \<in> set (app # fst (handleAddPersistentFile_steps b64 now rnd day out file app)).
      \<forall>s \<in> set (allSources (urlGroups st)). src_id s = ?id \<longrightarrow> s = ?d"
  proof (cases "(\<exists>base64. b64 = Resolved base64) \<and> out = IdbOk")
    case True
    then obtain base64 where b: "b64 = Resolved base64" and o: "out = IdbOk" by blast
    have "\<forall>s \<in> set (allSources (urlGroups (appendToActive ?d (app\<lparr>files_db := db\<rparr>)))).
        src_id s = ?id \<longrightarrow> s = ?d" for db
      using fresh' by (auto simp: set_allSources_appendToActive split: if_splits)
    then show ?thesis
      unfolding b o ok_steps using fresh' by simp
  next
    case False
    from failed [OF False] fresh' show ?thesis by auto
  qed
  have c3: "?d \<in> set (allSources (urlGroups (handleAddPersistentFile b64 now rnd day out file app))) \<longleftrightarrow>
      (\<exists>base64. b64 = Resolved base64) \<and> out = IdbOk"
  proof
    assume "?d \<in> set (allSources (urlGroups (handleAddPersistentFile b64 now rnd day out file app)))"
    then have "src_id ?d \<in> set (allIds (urlGroups (handleAddPersistentFile b64 now rnd day out file app)))"
      by (simp add: allIds_allSources)
    with c2 did show "(\<exists>base64. b64 = Resolved base64) \<and> out = IdbOk" by simp
  next
    assume "(\<exists>base64. b64 = Resolved base64) \<and> out = IdbOk"
    then obtain base64 where b: "b64 = Resolved base64" and o: "out = IdbOk" by blast
    have "?d \<in> set (allSources (urlGroups (appendToActive ?d (app\<lparr>files_db := db\<rparr>))))" for db
      using inG by (simp add: set_allSources_appendToActive)
    then show "?d \<in> set (allSources (urlGroups (handleAddPersistentFile b64 now rnd day out file app)))"
      unfolding handleAddPersistentFile_def b o ok_steps by simp
  qed
  have c4: "activeSources (handleAddPersistentFile b64 now rnd day out file app) =
        Some (sources g @ [?d]) \<and>
      idb_get ?id (files_db (handleAddPersistentFile b64 now rnd day out file app)) =
        Some (storedFileOf base64 now rnd day file)"
    if "b64 = Resolved base64 \<and> out = IdbOk"
  proof -
    from that have b: "b64 = Resolved base64" and o: "out = IdbOk" by auto
    let ?a = "app\<lparr>files_db := idb_put (storedFileOf base64 now rnd day file) (files_db app)\<rparr>"
    have "activeGroup ?a = Some g" using ag by (simp add: activeGroup_files_db)
    moreover have "group_id g = activeUrlGroupId ?a" using gid by simp
    ultimately have "activeSources (appendToActive ?d ?a) = Some (sources g @ [?d])"
      by (rule activeSources_appendToActive)
    then show ?thesis
      unfolding handleAddPersistentFile_def b o ok_steps
      by (simp add: ok_db idb_get_put sid)
  qed
  have c5: "handleFileSelect (sources g) maxItems (handleAddPersistentFile b64 now rnd day out)
          (Some file) kb app =
        (kb\<lparr>error := None\<rparr>, handleAddPersistentFile b64 now rnd day out file app)"
    if "js_type file = lit ''application/pdf'' \<and> length (sources g) < maxItems"
    using that by (simp add: handleFileSelect_def)
  from c1 c0 c3 c2 failed c4 c5 show ?thesis by blast
qed


text \<open>
  C1. Adding a file writes the blob first. Let the active group be found under the
  active id and let the new id not be in the library yet. The blob written is the record
  with the file's name and media type, the base64 payload, the new id and the date; the
  descriptor appended is the record with the new id, type file, the file's name as title,
  no url and the file's media type. In every state the application passes through, a
  descriptor with the new id is that descriptor, and it is present only if that blob is
  already in the object store under the id; after the handler the descriptor is in the
  group list if and only if the file was read and the blob write completed; when the read
  or the write fails, or the write never settles, no state on the way changes the group
  list; when the write completes, the active group's sources are the old ones followed by
  the descriptor, and the blob is stored under its id. The panel calls the handler for a
  PDF below the maximum item count.
\<close>

theorem handleAddPersistentFile_blob_first:
  "activeGroup app = Some g \<and> group_id g = activeUrlGroupId app \<and>
   newId ''file-'' now rnd \<notin> set (allIds (urlGroups app)) \<Longrightarrow>
   (\<forall>st \<in> set (app # fst (handleAddPersistentFile_steps b64 now rnd day out file app)).
      newId ''file-'' now rnd \<in> set (allIds (urlGroups st)) \<longrightarrow>
      (\<exists>base64. b64 = Resolved base64 \<and>
         idb_get (newId ''file-'' now rnd) (files_db st) =
           Some \<lparr>name = js_name file, mimeType = js_type file, data = base64,
                 file_id = newId ''file-'' now rnd, date = day\<rparr>)) \<and>
   (\<forall>st \<in> set (app # fst (handleAddPersistentFile_steps b64 now rnd day out file app)).
      \<forall>s \<in> set (allSources (urlGroups st)).
        src_id s = newId ''file-'' now rnd \<longrightarrow>
        s = \<lparr>src_id = newId ''file-'' now rnd, src_type = TFile, title = js_name file, url = None,
            src_mimeType = Some (js_type file)\<rparr>) \<and>
   (\<lparr>src_id = newId ''file-'' now rnd, src_type = TFile, title = js_name file, url = None,
            src_mimeType = Some (js_type file)\<rparr> \<in>
        set (allSources (urlGroups (handleAddPersistentFile b64 now rnd day out file app))) \<longleftrightarrow>
      (\<exists>base64. b64 = Resolved base64) \<and> out = IdbOk) \<and>
   (newId ''file-'' now rnd \<in>
        set (allIds (urlGroups (handleAddPersistentFile b64 now rnd day out file app))) \<longleftrightarrow>
      (\<exists>base64. b64 = Resolved base64) \<and> out = IdbOk) \<and>
   (\<not> ((\<exists>base64. b64 = Resolved base64) \<and> out = IdbOk) \<longrightarrow>
      (\<forall>st \<in> set (fst (handleAddPersistentFile_steps b64 now rnd day out file app)).
         urlGroups st = urlGroups app)) \<and>
   (b64 = Resolved base64 \<and> out = IdbOk \<longrightarrow>
      activeSources (handleAddPersistentFile b64 now rnd day out file app) =
        Some (sources g @
          [\<lparr>src_id = newId ''file-'' now rnd, src_type = TFile, title = js_name file, url = None,
            src_mimeType = Some (js_type file)\<rparr>]) \<and>
      idb_get (newId ''file-'' now rnd)
          (files_db (handleAddPersistentFile b64 now rnd day out file app)) =
        Some \<lparr>name = js_name file, mimeType = js_type file, data = base64,
                 file_id = newId ''file-'' now rnd, date = day\<rparr>) \<and>
   (js_type file = lit ''application/pdf'' \<and> length (sources g) < maxItems \<longrightarrow>
      handleFileSelect (sources g) maxItems (handleAddPersistentFile b64 now rnd day out)
          (Some file) kb app =
        (kb\<lparr>error := None\<rparr>, handleAddPersistentFile b64 now rnd day out file app))"
proof -
  assume h: "activeGroup app = Some g \<and> group_id g = activeUrlGroupId app \<and>
    newId ''file-'' now rnd \<notin> set (allIds (urlGroups app))"
  show ?thesis
    using handleAddPersistentFile_core [OF h, of b64 day out "file" base64 maxItems kb]
    unfolding fileSourceOf_def storedFileOf_def .
qed

theorem handleAddPersistentFile_blob_first_witness:
  "activeGroup demo_app = Some (hd (urlGroups demo_app)) \<and>
   group_id (hd (urlGroups demo_app)) = activeUrlGroupId demo_app \<and>
   newId ''file-'' 1700000000000 (lit ''k3j2h1g0f'') \<notin> set (allIds (urlGroups demo_app)) \<and>
   js_type demo_file = lit ''application/pdf'' \<and>
   length (sources (hd (urlGroups demo_app))) < MAX_ITEMS \<and>
   \<lparr>src_id = newId ''file-'' 1700000000000 (lit ''k3j2h1g0f''), src_type = TFile,
        title = lit ''act.pdf'', url = None, src_mimeType = Some (lit ''application/pdf'')\<rparr> \<in>
     set (allSources (urlGroups (handleAddPersistentFile (Resolved (lit ''JVBERi0xLjc=''))
       1700000000000 (lit ''k3j2h1g0f'') 1700000000001 IdbOk demo_file demo_app))) \<and>
   idb_get (newId ''file-'' 1700000000000 (lit ''k3j2h1g0f''))
       (files_db (handleAddPersistentFile (Resolved (lit ''JVBERi0xLjc=''))
         1700000000000 (lit ''k3j2h1g0f'') 1700000000001 IdbOk demo_file demo_app)) =
     Some \<lparr>name = lit ''act.pdf'', mimeType = lit ''application/pdf'',
        data = lit ''JVBERi0xLjc='', file_id = newId ''file-'' 1700000000000 (lit ''k3j2h1g0f''),
        date = 1700000000001\<rparr> \<and>
   activeSources (handleAddPersistentFile (Resolved (lit ''JVBERi0xLjc=''))
       1700000000000 (lit ''k3j2h1g0f'') 1700000000001 IdbOk demo_file demo_app) =
     Some [demo_link, demo_doc,
       \<lparr>src_id = newId ''file-'' 1700000000000 (lit ''k3j2h1g0f''), src_type = TFile,
        title = lit ''act.pdf'', url = None, src_mimeType = Some (lit ''application/pdf'')\<rparr>] \<and>
   handleFileSelect (sources (hd (urlGroups demo_app))) MAX_ITEMS
       (handleAddPersistentFile (Resolved (lit ''JVBERi0xLjc=''))
         1700000000000 (lit ''k3j2h1g0f'') 1700000000001 IdbOk)
       (Some demo_file) demo_kb demo_app =
     (demo_kb\<lparr>error := None\<rparr>,
      handleAddPersistentFile (Resolved (lit ''JVBERi0xLjc=''))
        1700000000000 (lit ''k3j2h1g0f'') 1700000000001 IdbOk demo_file demo_app) \<and>
   IdbTxError \<noteq> IdbOk \<and>
   newId ''file-'' 1700000000000 (lit ''k3j2h1g0f'') \<notin>
     set (allIds (urlGroups (handleAddPersistentFile (Resolved (lit ''JVBERi0xLjc=''))
       1700000000000 (lit ''k3j2h1g0f'') 1700000000001 IdbTxError demo_file demo_app))) \<and>
   urlGroups (handleAddPersistentFile (Resolved (lit ''JVBERi0xLjc=''))
       1700000000000 (lit ''k3j2h1g0f'') 1700000000001 IdbTxError demo_file demo_app) =
     urlGroups demo_app"
proof -
  let ?g = "hd (urlGroups demo_app)"
  let ?r = "lit ''k3j2h1g0f''"
  let ?b = "lit ''JVBERi0xLjc=''"
  let ?D = "\<lparr>src_id = newId ''file-'' 1700000000000 (lit ''k3j2h1g0f''), src_type = TFile,
        title = lit ''act.pdf'', url = None, src_mimeType = Some (lit ''application/pdf'')\<rparr>"
  let ?B = "\<lparr>name = lit ''act.pdf'', mimeType = lit ''application/pdf'',
        data = lit ''JVBERi0xLjc='', file_id = newId ''file-'' 1700000000000 (lit ''k3j2h1g0f''),
        date = 1700000000001\<rparr>"
  have h: "activeGroup demo_app = Some ?g \<and> group_id ?g = activeUrlGroupId demo_app \<and>
      newId ''file-'' 1700000000000 ?r \<notin> set (allIds (urlGroups demo_app))"
    by (simp add: activeGroup_def demo_defs allIds_def newId_def lit_def dec.simps)
  have p: "js_type demo_file = lit ''application/pdf'' \<and> length (sources ?g) < MAX_ITEMS"
    by (simp add: demo_defs MAX_ITEMS_def)
  have q: "Resolved ?b = Resolved ?b \<and> IdbOk = IdbOk" by simp
  have n: "IdbTxError \<noteq> IdbOk" by simp
  note ok = handleAddPersistentFile_blob_first
      [of demo_app ?g 1700000000000 ?r "Resolved ?b" 1700000000001 IdbOk demo_file ?b
        MAX_ITEMS demo_kb, OF h]
  note bad = handleAddPersistentFile_blob_first
      [of demo_app ?g 1700000000000 ?r "Resolved ?b" 1700000000001 IdbTxError demo_file ?b
        MAX_ITEMS demo_kb, OF h]
  from ok [THEN conjunct2, THEN conjunct2, THEN conjunct1]
  have a: "?D \<in> set (allSources (urlGroups (handleAddPersistentFile (Resolved ?b)
       1700000000000 ?r 1700000000001 IdbOk demo_file demo_app)))"
    by (simp add: demo_file_def)
  from ok [THEN conjunct2, THEN conjunct2, THEN conjunct2, THEN conjunct2, THEN conjunct2,
      THEN conjunct1, THEN mp, OF q]
  have b: "idb_get (newId ''file-'' 1700000000000 ?r)
       (files_db (handleAddPersistentFile (Resolved ?b)
         1700000000000 ?r 1700000000001 IdbOk demo_file demo_app)) = Some ?B \<and>
   activeSources (handleAddPersistentFile (Resolved ?b)
       1700000000000 ?r 1700000000001 IdbOk demo_file demo_app) =
     Some [demo_link, demo_doc, ?D]"
    by (simp add: demo_app_def demo_file_def)
  from ok [THEN conjunct2, THEN conjunct2, THEN conjunct2, THEN conjunct2, THEN conjunct2,
      THEN conjunct2, THEN mp, OF p]
  have c: "handleFileSelect (sources ?g) MAX_ITEMS
       (handleAddPersistentFile (Resolved ?b) 1700000000000 ?r 1700000000001 IdbOk)
       (Some demo_file) demo_kb demo_app =
     (demo_kb\<lparr>error := None\<rparr>,
      handleAddPersistentFile (Resolved ?b) 1700000000000 ?r 1700000000001 IdbOk demo_file
        demo_app)" .
  from bad [THEN conjunct2, THEN conjunct2, THEN conjunct2, THEN conjunct1] n
  have d: "newId ''file-'' 1700000000000 ?r \<notin>
     set (allIds (urlGroups (handleAddPersistentFile (Resolved ?b)
       1700000000000 ?r 1700000000001 IdbTxError demo_file demo_app)))"
    by blast
  have e: "urlGroups (handleAddPersistentFile (Resolved ?b)
       1700000000000 ?r 1700000000001 IdbTxError demo_file demo_app) = urlGroups demo_app"
    by (simp add: handleAddPersistentFile_def handleAddPersistentFile_steps_def saveFileToDB_def)
  from h p a b c n d e show ?thesis by blast
qed

section \<open>Identifiers\<close>

lemma dec_nonempty: "dec n \<noteq> []"
  by (subst dec.simps) simp

lemma unat_digit: "d < 10 \<Longrightarrow> unat (digit d) = 48 + d"
proof -
  assume "d < 10"
  then have "(48 + d) mod 2 ^ LENGTH(16) = 48 + d" by simp
  then show ?thesis unfolding digit_def by (simp only: unat_of_nat)
qed

lemma digit_inject:
  assumes "a < 10" and "b < 10" and "digit a = digit b"
  shows "a = b"
proof -
  from assms(3) have "unat (digit a) = unat (digit b)" by simp
  with assms(1,2) show ?thesis by (simp add: unat_digit)
qed

lemma digit_not_dash: "d < 10 \<Longrightarrow> digit d \<noteq> 45"
proof
  assume d: "d < 10" and "digit d = 45"
  then have "unat (digit d) = unat (45 :: 16 word)" by simp
  with d show False by (simp add: unat_digit)
qed

lemma dec_digits: "c \<in> set (dec n) \<Longrightarrow> \<exists>d<10. c = digit d"
proof (induction n rule: dec.induct)
  case (1 n)
  show ?case
  proof (cases "n < 10")
    case True
    with "1.prems" show ?thesis by (subst (asm) dec.simps) auto
  next
    case False
    from "1.prems" have "c \<in> set (dec (n div 10)) \<or> c = digit (n mod 10)"
      by (subst (asm) dec.simps) (use False in auto)
    with "1.IH" [OF False] show ?thesis by (auto intro: exI [of _ "n mod 10"])
  qed
qed

lemma dash_not_in_dec: "45 \<notin> set (dec n)"
  using dec_digits [of 45 n] digit_not_dash by metis

lemma dec_inject: "dec a = dec b \<Longrightarrow> a = b"
proof (induction a arbitrary: b rule: dec.induct)
  case (1 n)
  show ?case
  proof (cases "n < 10")
    case n: True
    show ?thesis
    proof (cases "b < 10")
      case True
      with n "1.prems" have "digit n = digit b"
        by (simp add: dec.simps [of n] dec.simps [of b])
      with n True show ?thesis by (rule digit_inject)
    next
      case False
      with n "1.prems" have "[digit n] = dec (b div 10) @ [digit (b mod 10)]"
        by (simp add: dec.simps [of n] dec.simps [of b])
      then show ?thesis using dec_nonempty [of "b div 10"] by auto
    qed
  next
    case n: False
    show ?thesis
    proof (cases "b < 10")
      case True
      with n "1.prems" have "dec (n div 10) @ [digit (n mod 10)] = [digit b]"
        by (simp add: dec.simps [of n] dec.simps [of b])
      then show ?thesis using dec_nonempty [of "n div 10"] by auto
    next
      case False
      with n "1.prems" have "dec (n div 10) @ [digit (n mod 10)] = dec (b div 10) @ [digit (b mod 10)]"
        by (simp add: dec.simps [of n] dec.simps [of b])
      then have e: "dec (n div 10) = dec (b div 10)" and d: "digit (n mod 10) = digit (b mod 10)"
        by simp_all
      from "1.IH" [OF n e] have q: "n div 10 = b div 10" .
      have "n mod 10 = b mod 10" by (rule digit_inject [OF _ _ d]) simp_all
      with q show ?thesis by (metis div_mult_mod_eq)
    qed
  qed
qed

lemma dec_eq_iff: "dec a = dec b \<longleftrightarrow> a = b"
  by (auto dest: dec_inject)

lemma split_at_mark:
  "x \<notin> set xs \<Longrightarrow> x \<notin> set ys \<Longrightarrow> xs @ x # r = ys @ x # r' \<Longrightarrow> xs = ys \<and> r = r'"
proof (induction xs arbitrary: ys)
  case Nil
  then show ?case by (cases ys) auto
next
  case (Cons a xs)
  then show ?case by (cases ys) auto
qed

lemma newId_inject:
  assumes "newId p a r = newId p b r'"
  shows "a = b \<and> r = r'"
proof -
  from assms have "dec a @ 45 # r = dec b @ 45 # r'"
    by (simp add: newId_def lit_def)
  from split_at_mark [OF dash_not_in_dec dash_not_in_dec this]
  show ?thesis by (auto dest: dec_inject)
qed

lemma newId_kinds: "newId ''src-'' a r \<noteq> newId ''file-'' b r'"
  by (simp add: newId_def lit_def)


section \<open>A failed generation\<close>

lemma resolvePlaceholder_fresh:
  "pid \<notin> msg_id ` set prev \<Longrightarrow> resolvePlaceholder pid upd prev = prev"
  unfolding resolvePlaceholder_def by (rule map_idI) auto

lemma resolvePlaceholder_append:
  "resolvePlaceholder pid upd (xs @ ys) = resolvePlaceholder pid upd xs @ resolvePlaceholder pid upd ys"
  by (simp add: resolvePlaceholder_def)

lemma generateContentWithUrlContext_throws:
  "API_KEY = None \<or> API_KEY = Some [] \<or> (\<exists>thrown. generateContent = (\<lambda>_. Inl thrown)) \<Longrightarrow>
   \<exists>m. generateContentWithUrlContext API_KEY generateContent prompt urls files = Inl m"
  by (auto simp: generateContentWithUrlContext_def split: js_thrown.splits if_splits)

lemma handleSendMessage_failure_core:
  "activeSources app = Some srcs \<and>
   gatherContext getFile srcs ([], tempAttachments) = Some (urls, filesToSend) \<and>
   generate query urls filesToSend = Inl err \<Longrightarrow>
   snd (handleSendMessage getFile generate t1 t2 t3 t4 query tempAttachments app) \<and>
   urlGroups (fst (handleSendMessage getFile generate t1 t2 t3 t4 query tempAttachments app)) =
     urlGroups app \<and>
   files_db (fst (handleSendMessage getFile generate t1 t2 t3 t4 query tempAttachments app)) =
     files_db app \<and>
   requests (fst (handleSendMessage getFile generate t1 t2 t3 t4 query tempAttachments app)) =
     requests app @ [(query, urls, filesToSend)] \<and>
   list_all2 (\<lambda>m m'. m' = (if msg_id m = dec (t3 + 1)
          then m\<lparr>msg_text := apology, msg_isLoading := Some False\<rparr> else m))
     (chatMessages app @
        [\<lparr>msg_id = dec t1, msg_text = query, sender = USER, timestamp = t2,
          msg_isLoading = None, urlContext = None, attachments = Some tempAttachments\<rparr>,
         \<lparr>msg_id = dec (t3 + 1), msg_text = [], sender = MODEL, timestamp = t4,
          msg_isLoading = Some True, urlContext = None, attachments = None\<rparr>])
     (chatMessages (fst (handleSendMessage getFile generate t1 t2 t3 t4 query tempAttachments app))) \<and>
   (t1 \<noteq> t3 + 1 \<and> dec (t3 + 1) \<notin> msg_id ` set (chatMessages app) \<longrightarrow>
      fst (handleSendMessage getFile generate t1 t2 t3 t4 query tempAttachments app) =
        app\<lparr>isLoading := False,
            chatMessages := chatMessages app @
              [\<lparr>msg_id = dec t1, msg_text = query, sender = USER, timestamp = t2,
                msg_isLoading = None, urlContext = None, attachments = Some tempAttachments\<rparr>,
               \<lparr>msg_id = dec (t3 + 1), msg_text = apology, sender = MODEL, timestamp = t4,
                msg_isLoading = Some False, urlContext = None, attachments = None\<rparr>],
            requests := requests app @ [(query, urls, filesToSend)]\<rparr>) \<and>
   (API_KEY = None \<or> API_KEY = Some [] \<or> (\<exists>thrown. generateContent = (\<lambda>_. Inl thrown)) \<longrightarrow>
      (\<exists>m. generateContentWithUrlContext API_KEY generateContent query urls filesToSend = Inl m))"
proof -
  assume h: "activeSources app = Some srcs \<and>
   gatherContext getFile srcs ([], tempAttachments) = Some (urls, filesToSend) \<and>
   generate query urls filesToSend = Inl err"
  define pid where "pid = dec (t3 + 1)"
  let ?user = "\<lparr>msg_id = dec t1, msg_text = query, sender = USER, timestamp = t2,
            msg_isLoading = None, urlContext = None, attachments = Some tempAttachments\<rparr>"
  let ?placeholder = "\<lparr>msg_id = pid, msg_text = [], sender = MODEL, timestamp = t4,
            msg_isLoading = Some True, urlContext = None, attachments = None\<rparr>"
  let ?resolved = "\<lparr>msg_id = pid, msg_text = apology, sender = MODEL, timestamp = t4,
            msg_isLoading = Some False, urlContext = None, attachments = None\<rparr>"
  let ?upd = "\<lambda>msg. msg\<lparr>msg_text := apology, msg_isLoading := Some False\<rparr>"
  let ?R = "handleSendMessage getFile generate t1 t2 t3 t4 query tempAttachments app"
  from h have r: "?R =
      (app\<lparr>isLoading := False,
           chatMessages := resolvePlaceholder pid ?upd (chatMessages app @ [?user, ?placeholder]),
           requests := requests app @ [(query, urls, filesToSend)]\<rparr>, True)"
    unfolding pid_def by (simp add: handleSendMessage_def Let_def)
  have a: "snd ?R" and b: "urlGroups (fst ?R) = urlGroups app"
    and c: "files_db (fst ?R) = files_db app"
    and e: "requests (fst ?R) = requests app @ [(query, urls, filesToSend)]"
    by (simp_all add: r)
  have cm: "chatMessages (fst ?R) =
      resolvePlaceholder pid ?upd (chatMessages app @ [?user, ?placeholder])"
    by (simp add: r)
  have "list_all2 (\<lambda>m m'. m' = (if msg_id m = pid
          then m\<lparr>msg_text := apology, msg_isLoading := Some False\<rparr> else m))
     xs (resolvePlaceholder pid ?upd xs)" for xs
    unfolding resolvePlaceholder_def by (simp add: list_all2_map2 list_all2_same)
  from this [of "chatMessages app @ [?user, ?placeholder]"]
  have l: "list_all2 (\<lambda>m m'. m' = (if msg_id m = pid
          then m\<lparr>msg_text := apology, msg_isLoading := Some False\<rparr> else m))
     (chatMessages app @ [?user, ?placeholder]) (chatMessages (fst ?R))"
    by (simp only: cm)
  have g: "fst ?R = app\<lparr>isLoading := False,
            chatMessages := chatMessages app @ [?user, ?resolved],
            requests := requests app @ [(query, urls, filesToSend)]\<rparr>"
    if "t1 \<noteq> t3 + 1 \<and> pid \<notin> msg_id ` set (chatMessages app)"
  proof -
    from that have ne: "dec t1 \<noteq> pid" unfolding pid_def by (auto dest: dec_inject)
    from that have "resolvePlaceholder pid ?upd (chatMessages app) = chatMessages app"
      by (simp add: resolvePlaceholder_fresh)
    moreover have "resolvePlaceholder pid ?upd [?user, ?placeholder] = [?user, ?resolved]"
      using ne by (simp add: resolvePlaceholder_def)
    ultimately have "resolvePlaceholder pid ?upd (chatMessages app @ [?user, ?placeholder]) =
        chatMessages app @ [?user, ?resolved]"
      by (simp only: resolvePlaceholder_append)
    then show ?thesis by (simp only: r fst_conv)
  qed
  have k: "\<exists>m. generateContentWithUrlContext API_KEY generateContent query urls filesToSend = Inl m"
    if "API_KEY = None \<or> API_KEY = Some [] \<or> (\<exists>thrown. generateContent = (\<lambda>_. Inl thrown))"
    using that by (rule generateContentWithUrlContext_throws)
  from a b c e l g k show ?thesis unfolding pid_def by blast
qed

text \<open>
  C9, as the claim states it, fails: the placeholder's id is a clock reading plus one, and
  the catch block rewrites every message with that id. Two turns at the same clock
  reading, the first answered and the second failing, leave two messages with the failure
  text, the earlier answer among them.
\<close>

theorem generation_failure_counterexample:
  "map msg_text (chatMessages (fst (handleSendMessage (getFileFromDB IdbOk [demo_blob])
       (\<lambda>_ _ _. Inr \<lparr>gr_text = lit ''Answer'', urlContextMetadata = None\<rparr>)
       1700000000000 1700000000000 1700000000000 1700000000000 (lit ''First'') [] demo_app))) =
     [lit ''First'', lit ''Answer''] \<and>
   map msg_text (chatMessages (fst (handleSendMessage (getFileFromDB IdbOk [demo_blob])
       (generateContentWithUrlContext None (\<lambda>_. Inl NonError))
       1700000000000 1700000000000 1700000000000 1700000000000 (lit ''Second'') []
       (fst (handleSendMessage (getFileFromDB IdbOk [demo_blob])
          (\<lambda>_ _ _. Inr \<lparr>gr_text = lit ''Answer'', urlContextMetadata = None\<rparr>)
          1700000000000 1700000000000 1700000000000 1700000000000 (lit ''First'') []
          demo_app))))) =
     [lit ''First'',
      lit ''Apologies, I encountered a diplomatic communication error. Please ensure your files are valid and try again.'',
      lit ''Second'',
      lit ''Apologies, I encountered a diplomatic communication error. Please ensure your files are valid and try again.'']"
  by (simp add: handleSendMessage_def Let_def activeSources_def activeGroup_def demo_defs
      getFileFromDB_def idb_get_def resolvePlaceholder_def generateContentWithUrlContext_def
      apology_def dec_eq_iff lit_def)

text \<open>
  C9, amended. Let the context loop return and let the generation client throw, whatever
  the error. Then the handler runs to its end; the group list and the object store are as
  before; exactly one request has been handed to the client (there is no second call);
  every message of the transcript that carries the placeholder's id, the placeholder
  among them, gets the text "Apologies, I encountered a diplomatic communication error.
  Please ensure your files are valid and try again." and stops loading, and every other
  message stays as it is; and, when the placeholder's id is not the user message's id nor
  the id of an earlier message, the final state is the initial one with the loading flag
  off and the transcript extended by the user message and that single failure message.
  The client throws whenever the API key is unset or empty, or the SDK call throws.
\<close>

theorem handleSendMessage_generation_failure:
  "activeSources app = Some srcs \<and>
   gatherContext getFile srcs ([], tempAttachments) = Some (urls, filesToSend) \<and>
   generate query urls filesToSend = Inl err \<Longrightarrow>
   snd (handleSendMessage getFile generate t1 t2 t3 t4 query tempAttachments app) \<and>
   urlGroups (fst (handleSendMessage getFile generate t1 t2 t3 t4 query tempAttachments app)) =
     urlGroups app \<and>
   files_db (fst (handleSendMessage getFile generate t1 t2 t3 t4 query tempAttachments app)) =
     files_db app \<and>
   requests (fst (handleSendMessage getFile generate t1 t2 t3 t4 query tempAttachments app)) =
     requests app @ [(query, urls, filesToSend)] \<and>
   list_all2 (\<lambda>m m'. m' = (if msg_id m = dec (t3 + 1)
          then m\<lparr>msg_text := 
            lit ''Apologies, I encountered a diplomatic communication error. Please ensure your files are valid and try again.'', msg_isLoading := Some False\<rparr> else m))
     (chatMessages app @
        [\<lparr>msg_id = dec t1, msg_text = query, sender = USER, timestamp = t2,
          msg_isLoading = None, urlContext = None, attachments = Some tempAttachments\<rparr>,
         \<lparr>msg_id = dec (t3 + 1), msg_text = [], sender = MODEL, timestamp = t4,
          msg_isLoading = Some True, urlContext = None, attachments = None\<rparr>])
     (chatMessages (fst (handleSendMessage getFile generate t1 t2 t3 t4 query tempAttachments app))) \<and>
   (t1 \<noteq> t3 + 1 \<and> dec (t3 + 1) \<notin> msg_id ` set (chatMessages app) \<longrightarrow>
      fst (handleSendMessage getFile generate t1 t2 t3 t4 query tempAttachments app) =
        app\<lparr>isLoading := False,
            chatMessages := chatMessages app @
              [\<lparr>msg_id = dec t1, msg_text = query, sender = USER, timestamp = t2,
                msg_isLoading = None, urlContext = None, attachments = Some tempAttachments\<rparr>,
               \<lparr>msg_id = dec (t3 + 1), msg_text = 
                  lit ''Apologies, I encountered a diplomatic communication error. Please ensure your files are valid and try again.'', sender = MODEL, timestamp = t4,
                msg_isLoading = Some False, urlContext = None, attachments = None\<rparr>],
            requests := requests app @ [(query, urls, filesToSend)]\<rparr>) \<and>
   (API_KEY = None \<or> API_KEY = Some [] \<or> (\<exists>thrown. generateContent = (\<lambda>_. Inl thrown)) \<longrightarrow>
      (\<exists>m. generateContentWithUrlContext API_KEY generateContent query urls filesToSend = Inl m))"
proof -
  assume h: "activeSources app = Some srcs \<and>
   gatherContext getFile srcs ([], tempAttachments) = Some (urls, filesToSend) \<and>
   generate query urls filesToSend = Inl err"
  show ?thesis
    using handleSendMessage_failure_core
      [where app = app and srcs = srcs and getFile = getFile and
        tempAttachments = tempAttachments and urls = urls and filesToSend = filesToSend and
        generate = generate and query = query and err = err and ?t1.0 = t1 and ?t2.0 = t2 and
        ?t3.0 = t3 and ?t4.0 = t4 and API_KEY = API_KEY and generateContent = generateContent,
        OF h]
    unfolding apology_def .
qed

theorem handleSendMessage_generation_failure_witness:
  "activeSources demo_app = Some [demo_link, demo_doc] \<and>
   gatherContext (getFileFromDB IdbOk (files_db demo_app)) [demo_link, demo_doc] ([], []) =
     Some ([demo_url],
       [\<lparr>name = lit ''reg.pdf'', mimeType = lit ''application/pdf'', data = lit ''JVBERi0=''\<rparr>]) \<and>
   generateContentWithUrlContext None (\<lambda>_. Inl NonError) (lit ''What is high-risk AI?'') [demo_url]
       [\<lparr>name = lit ''reg.pdf'', mimeType = lit ''application/pdf'', data = lit ''JVBERi0=''\<rparr>] =
     Inl (lit ''Gemini API Key not configured. Set process.env.API_KEY.'') \<and>
   (1700000000000::nat) \<noteq> 1700000000000 + 1 \<and>
   dec (1700000000000 + 1) \<notin> msg_id ` set (chatMessages demo_app) \<and>
   handleSendMessage (getFileFromDB IdbOk (files_db demo_app))
       (generateContentWithUrlContext None (\<lambda>_. Inl NonError))
       1700000000000 1700000000000 1700000000000 1700000000000
       (lit ''What is high-risk AI?'') [] demo_app =
     (demo_app\<lparr>chatMessages :=
          [\<lparr>msg_id = dec 1700000000000, msg_text = lit ''What is high-risk AI?'', sender = USER,
            timestamp = 1700000000000, msg_isLoading = None, urlContext = None,
            attachments = Some []\<rparr>,
           \<lparr>msg_id = dec (1700000000000 + 1), msg_text =
              lit ''Apologies, I encountered a diplomatic communication error. Please ensure your files are valid and try again.'', sender = MODEL,
            timestamp = 1700000000000, msg_isLoading = Some False, urlContext = None,
            attachments = None\<rparr>],
        requests := [(lit ''What is high-risk AI?'', [demo_url],
          [\<lparr>name = lit ''reg.pdf'', mimeType = lit ''application/pdf'',
            data = lit ''JVBERi0=''\<rparr>])]\<rparr>, True)"
proof -
  let ?q = "lit ''What is high-risk AI?''"
  let ?att = "\<lparr>name = lit ''reg.pdf'', mimeType = lit ''application/pdf'', data = lit ''JVBERi0=''\<rparr>"
  let ?get = "getFileFromDB IdbOk (files_db demo_app)"
  let ?gen = "generateContentWithUrlContext None (\<lambda>_. Inl NonError)"
  let ?R = "handleSendMessage ?get ?gen 1700000000000 1700000000000 1700000000000 1700000000000
       ?q [] demo_app"
  have s: "activeSources demo_app = Some [demo_link, demo_doc]"
    by (simp add: activeSources_def activeGroup_def demo_app_def)
  have g: "gatherContext ?get [demo_link, demo_doc] ([], []) = Some ([demo_url], [?att])"
    by (simp add: getFileFromDB_def idb_get_def demo_defs lit_def)
  have e: "?gen ?q [demo_url] [?att] =
      Inl (lit ''Gemini API Key not configured. Set process.env.API_KEY.'')"
    by (simp add: generateContentWithUrlContext_def)
  have n: "(1700000000000::nat) \<noteq> 1700000000000 + 1 \<and>
      dec (1700000000000 + 1) \<notin> msg_id ` set (chatMessages demo_app)"
    by (simp add: demo_app_def)
  from s g e have h: "activeSources demo_app = Some [demo_link, demo_doc] \<and>
      gatherContext ?get [demo_link, demo_doc] ([], []) = Some ([demo_url], [?att]) \<and>
      ?gen ?q [demo_url] [?att] =
        Inl (lit ''Gemini API Key not configured. Set process.env.API_KEY.'')"
    by blast
  note t = handleSendMessage_generation_failure
      [where app = demo_app and srcs = "[demo_link, demo_doc]" and getFile = ?get and
        tempAttachments = "[]" and urls = "[demo_url]" and filesToSend = "[?att]" and
        generate = ?gen and query = ?q and
        err = "lit ''Gemini API Key not configured. Set process.env.API_KEY.''" and
        ?t1.0 = 1700000000000 and ?t2.0 = 1700000000000 and ?t3.0 = 1700000000000 and
        ?t4.0 = 1700000000000 and API_KEY = None and generateContent = "\<lambda>_. Inl NonError",
        OF h]
  from t [THEN conjunct2, THEN conjunct2, THEN conjunct2, THEN conjunct2, THEN conjunct2,
      THEN conjunct1, THEN mp, OF n]
  have "fst ?R =
     demo_app\<lparr>chatMessages :=
          [\<lparr>msg_id = dec 1700000000000, msg_text = ?q, sender = USER,
            timestamp = 1700000000000, msg_isLoading = None, urlContext = None,
            attachments = Some []\<rparr>,
           \<lparr>msg_id = dec (1700000000000 + 1), msg_text =
              lit ''Apologies, I encountered a diplomatic communication error. Please ensure your files are valid and try again.'', sender = MODEL,
            timestamp = 1700000000000, msg_isLoading = Some False, urlContext = None,
            attachments = None\<rparr>],
        requests := [(?q, [demo_url], [?att])]\<rparr>"
    by (simp add: demo_app_def)
  moreover from t have "snd ?R" by (rule conjunct1)
  ultimately have "?R = (demo_app\<lparr>chatMessages :=
          [\<lparr>msg_id = dec 1700000000000, msg_text = ?q, sender = USER,
            timestamp = 1700000000000, msg_isLoading = None, urlContext = None,
            attachments = Some []\<rparr>,
           \<lparr>msg_id = dec (1700000000000 + 1), msg_text =
              lit ''Apologies, I encountered a diplomatic communication error. Please ensure your files are valid and try again.'', sender = MODEL,
            timestamp = 1700000000000, msg_isLoading = Some False, urlContext = None,
            attachments = None\<rparr>],
        requests := [(?q, [demo_url], [?att])]\<rparr>, True)"
    by (simp add: prod_eq_iff)
  with s g e n show ?thesis by blast
qed

section \<open>Identifiers across additions\<close>

lemma opId_inject: "opId a = opId b \<Longrightarrow> opDraw a = opDraw b"
proof (cases a; cases b)
qed (use newId_kinds newId_kinds [symmetric] in \<open>auto dest: newId_inject\<close>)

lemma allIds_Cons: "allIds (g # gs) = map src_id (sources g) @ allIds gs"
  by (simp add: allIds_def)

lemma distinct_allIds_appended:
  "distinct (map group_id gs) \<Longrightarrow> distinct (allIds gs) \<Longrightarrow> src_id d \<notin> set (allIds gs) \<Longrightarrow>
   distinct (allIds (map (\<lambda>g. if group_id g = a then g\<lparr>sources := sources g @ [d]\<rparr> else g) gs))"
  for gs :: "URLGroup list"
proof (induction gs)
  case Nil
  then show ?case by (simp add: allIds_def)
next
  case (Cons g gs)
  let ?f = "\<lambda>g. if group_id g = a then g\<lparr>sources := sources g @ [d]\<rparr> else g"
  from Cons.prems have dg: "distinct (map group_id gs)" and gn: "group_id g \<notin> group_id ` set gs"
    and d1: "distinct (map src_id (sources g))" and d2: "distinct (allIds gs)"
    and dj: "set (map src_id (sources g)) \<inter> set (allIds gs) = {}"
    and f1: "src_id d \<notin> set (map src_id (sources g))" and f2: "src_id d \<notin> set (allIds gs)"
    by (auto simp: allIds_Cons)
  show ?case
  proof (cases "group_id g = a")
    case True
    have "group_id x \<noteq> a" if "x \<in> set gs" for x
      using that gn True by (metis imageI)
    then have m: "map ?f gs = gs" by (intro map_idI) simp
    have "allIds (map ?f (g # gs)) = allIds (?f g # map ?f gs)" by simp
    also have "\<dots> = allIds (g\<lparr>sources := sources g @ [d]\<rparr> # gs)"
      unfolding m using True by simp
    also have "\<dots> = (map src_id (sources g) @ [src_id d]) @ allIds gs"
      by (simp add: allIds_Cons)
    finally have e: "allIds (map ?f (g # gs)) = (map src_id (sources g) @ [src_id d]) @ allIds gs" .
    show ?thesis unfolding e using d1 d2 dj f1 f2 by auto
  next
    case False
    have s: "set (allIds (map ?f gs)) \<subseteq> insert (src_id d) (set (allIds gs))"
      unfolding set_allIds_appended by auto
    have "allIds (map ?f (g # gs)) = allIds (?f g # map ?f gs)" by simp
    also have "\<dots> = map src_id (sources g) @ allIds (map ?f gs)"
      using False by (simp add: allIds_Cons)
    finally have e: "allIds (map ?f (g # gs)) = map src_id (sources g) @ allIds (map ?f gs)" .
    from s dj f1 have "set (map src_id (sources g)) \<inter> set (allIds (map ?f gs)) = {}"
      by blast
    with d1 Cons.IH [OF dg d2 f2] show ?thesis unfolding e by simp
  qed
qed

lemma keeps_refl: "list_all2 keeps gs gs"
  by (simp add: list_all2_same keeps_def)

lemma keeps_trans:
  assumes "list_all2 keeps xs ys" and "list_all2 keeps ys zs"
  shows "list_all2 keeps xs zs"
proof -
  have step: "keeps x y \<Longrightarrow> keeps y z \<Longrightarrow> keeps x z" for x y z
    by (auto simp: keeps_def)
  show ?thesis by (rule list_all2_trans [OF step assms])
qed

lemma keeps_appendToActive: "list_all2 keeps (urlGroups app) (urlGroups (appendToActive d app))"
  by (simp add: appendToActive_def list_all2_map2 list_all2_same keeps_def)

lemma urlGroups_appendToActive_db:
  "urlGroups (appendToActive d (app\<lparr>files_db := db\<rparr>)) = urlGroups (appendToActive d app)"
  by (simp add: appendToActive_def)

lemma applyOp_cases:
  "(urlGroups (applyOp op app) = urlGroups app \<or>
    (\<exists>d. src_id d = opId op \<and> urlGroups (applyOp op app) = urlGroups (appendToActive d app)))"
proof (cases op)
  case (AddUrl now rnd u)
  have "\<exists>d. src_id d = newId ''src-'' now rnd \<and>
      urlGroups (handleAddSource now rnd u app) = urlGroups (appendToActive d app)"
    by (rule exI [of _ "\<lparr>src_id = newId ''src-'' now rnd, src_type = TUrl, title = u,
        url = Some u, src_mimeType = None\<rparr>"]) (simp add: handleAddSource_def)
  with AddUrl show ?thesis by simp
next
  case (AddFile b64 now rnd day out upload)
  have "src_id (fileSourceOf now rnd upload) = newId ''file-'' now rnd"
    by (simp add: fileSourceOf_def)
  with AddFile show ?thesis
    by (cases b64; cases out)
       (auto simp: handleAddPersistentFile_def handleAddPersistentFile_steps_def saveFileToDB_def
          urlGroups_appendToActive_db)
qed

lemma applyOp_step:
  assumes "distinct (map group_id (urlGroups app))" and "distinct (allIds (urlGroups app))"
    and "opId op \<notin> set (allIds (urlGroups app))"
  shows "distinct (map group_id (urlGroups (applyOp op app))) \<and>
         distinct (allIds (urlGroups (applyOp op app))) \<and>
         set (allIds (urlGroups (applyOp op app))) \<subseteq> insert (opId op) (set (allIds (urlGroups app))) \<and>
         list_all2 keeps (urlGroups app) (urlGroups (applyOp op app))"
proof -
  from applyOp_cases [of op app] show ?thesis
  proof
    assume "urlGroups (applyOp op app) = urlGroups app"
    with assms show ?thesis by (auto simp: keeps_refl)
  next
    assume "\<exists>d. src_id d = opId op \<and> urlGroups (applyOp op app) = urlGroups (appendToActive d app)"
    then obtain d where d: "src_id d = opId op"
      and u: "urlGroups (applyOp op app) = urlGroups (appendToActive d app)" by blast
    have "map group_id (urlGroups (appendToActive d app)) = map group_id (urlGroups app)"
      by (simp add: appendToActive_def comp_def if_distrib [of group_id] cong: if_cong)
    moreover have "distinct (allIds (urlGroups (appendToActive d app)))"
      using assms d by (simp add: appendToActive_def distinct_allIds_appended)
    moreover have "set (allIds (urlGroups (appendToActive d app))) \<subseteq>
        insert (opId op) (set (allIds (urlGroups app)))"
      using d by (auto simp: set_allIds_appendToActive split: if_splits)
    ultimately show ?thesis using assms(1) u keeps_appendToActive [of app d] by simp
  qed
qed

lemma runOps_invariant:
  "distinct (map group_id (urlGroups app)) \<Longrightarrow> distinct (allIds (urlGroups app)) \<Longrightarrow>
   distinct (map opId ops) \<Longrightarrow> \<forall>op \<in> set ops. opId op \<notin> set (allIds (urlGroups app)) \<Longrightarrow>
   distinct (allIds (urlGroups (runOps ops app))) \<and>
   list_all2 keeps (urlGroups app) (urlGroups (runOps ops app))"
proof (induction ops arbitrary: app)
  case Nil
  then show ?case by (simp add: keeps_refl)
next
  case (Cons op ops)
  from Cons.prems have fresh: "opId op \<notin> set (allIds (urlGroups app))" by simp
  note step = applyOp_step [OF Cons.prems(1,2) fresh]
  have later: "\<forall>op' \<in> set ops. opId op' \<notin> set (allIds (urlGroups (applyOp op app)))"
  proof
    fix op'
    assume m: "op' \<in> set ops"
    from Cons.prems(3) have "opId op \<notin> opId ` set ops" by simp
    moreover from m have "opId op' \<in> opId ` set ops" by (rule imageI)
    ultimately have "opId op' \<noteq> opId op" by metis
    moreover from m Cons.prems(4) have "opId op' \<notin> set (allIds (urlGroups app))" by simp
    ultimately show "opId op' \<notin> set (allIds (urlGroups (applyOp op app)))"
      using step by blast
  qed
  from Cons.prems(3) have "distinct (map opId ops)" by simp
  from Cons.IH [OF _ _ this later] step
  have "distinct (allIds (urlGroups (runOps ops (applyOp op app))))"
    and "list_all2 keeps (urlGroups (applyOp op app)) (urlGroups (runOps ops (applyOp op app)))"
    by simp_all
  with step show ?case by (auto intro: keeps_trans)
qed

lemma distinct_draws: "distinct (map opDraw ops) \<Longrightarrow> distinct (map opId ops)"
proof (induction ops)
  case Nil
  then show ?case by simp
next
  case (Cons op ops)
  then show ?case by (auto dest: opId_inject)
qed


lemma opDraw_opId: "opDraw a = opDraw b \<Longrightarrow> opId a = opId b"
  by (cases a; cases b) auto

text \<open>
  C8, as the claim states it, fails: two links added at the same clock reading with the
  same random suffix get the same id.
\<close>

theorem ids_unique_counterexample:
  "\<not> distinct (allIds (urlGroups (runOps
      [AddUrl 1700000000000 (lit ''k3j2h1g0f'') (lit ''https://example.com/a''),
       AddUrl 1700000000000 (lit ''k3j2h1g0f'') (lit ''https://example.com/b'')]
      initialApp)))"
  by (simp add: initialApp_def INITIAL_URL_GROUPS_def handleAddSource_def appendToActive_def
      allIds_def)

text \<open>
  C8, amended. An id is rendered from the kind of the addition (link or file), the clock
  reading and the random suffix, and two additions get the same id exactly when these
  three coincide. Starting from a library with distinct group ids and distinct descriptor
  ids, none of which is generated again, every sequence of additions whose draws are
  pairwise distinct yields a library whose descriptor ids are all distinct; and every
  group keeps its id, its name and its earlier descriptors, unchanged and in place, so no
  id changes after creation.
\<close>

theorem ids_unique_for_distinct_draws:
  "distinct (map group_id (urlGroups app)) \<and> distinct (allIds (urlGroups app)) \<and>
   distinct (map opDraw ops) \<and> (\<forall>op \<in> set ops. opId op \<notin> set (allIds (urlGroups app))) \<Longrightarrow>
   distinct (allIds (urlGroups (runOps ops app))) \<and>
   list_all2 keeps (urlGroups app) (urlGroups (runOps ops app)) \<and>
   (opId a = opId b \<longleftrightarrow> opDraw a = opDraw b)"
proof -
  assume h: "distinct (map group_id (urlGroups app)) \<and> distinct (allIds (urlGroups app)) \<and>
   distinct (map opDraw ops) \<and> (\<forall>op \<in> set ops. opId op \<notin> set (allIds (urlGroups app)))"
  then have "distinct (map opId ops)" by (simp add: distinct_draws)
  with h have "distinct (allIds (urlGroups (runOps ops app))) \<and>
      list_all2 keeps (urlGroups app) (urlGroups (runOps ops app))"
    by (intro runOps_invariant) simp_all
  moreover have "opId a = opId b \<longleftrightarrow> opDraw a = opDraw b"
    using opId_inject opDraw_opId by blast
  ultimately show ?thesis by simp
qed

theorem ids_unique_for_distinct_draws_witness:
  "distinct (map group_id (urlGroups initialApp)) \<and> distinct (allIds (urlGroups initialApp)) \<and>
   distinct (map opDraw
     [AddUrl 1700000000000 (lit ''k3j2h1g0f'') (lit ''https://example.com/a''),
      AddUrl 1700000000000 (lit ''z9y8x7w6v'') (lit ''https://example.com/b''),
      AddFile (Resolved (lit ''JVBERi0xLjc='')) 1700000000000 (lit ''k3j2h1g0f'') 1700000000000
        IdbOk demo_file]) \<and>
   list_all (\<lambda>op. opId op \<notin> set (allIds (urlGroups initialApp)))
     [AddUrl 1700000000000 (lit ''k3j2h1g0f'') (lit ''https://example.com/a''),
      AddUrl 1700000000000 (lit ''z9y8x7w6v'') (lit ''https://example.com/b''),
      AddFile (Resolved (lit ''JVBERi0xLjc='')) 1700000000000 (lit ''k3j2h1g0f'') 1700000000000
        IdbOk demo_file] \<and>
   distinct (allIds (urlGroups (runOps
     [AddUrl 1700000000000 (lit ''k3j2h1g0f'') (lit ''https://example.com/a''),
      AddUrl 1700000000000 (lit ''z9y8x7w6v'') (lit ''https://example.com/b''),
      AddFile (Resolved (lit ''JVBERi0xLjc='')) 1700000000000 (lit ''k3j2h1g0f'') 1700000000000
        IdbOk demo_file] initialApp))) \<and>
   length (allIds (urlGroups (runOps
     [AddUrl 1700000000000 (lit ''k3j2h1g0f'') (lit ''https://example.com/a''),
      AddUrl 1700000000000 (lit ''z9y8x7w6v'') (lit ''https://example.com/b''),
      AddFile (Resolved (lit ''JVBERi0xLjc='')) 1700000000000 (lit ''k3j2h1g0f'') 1700000000000
        IdbOk demo_file] initialApp))) = 3"
proof -
  let ?ops = "[AddUrl 1700000000000 (lit ''k3j2h1g0f'') (lit ''https://example.com/a''),
      AddUrl 1700000000000 (lit ''z9y8x7w6v'') (lit ''https://example.com/b''),
      AddFile (Resolved (lit ''JVBERi0xLjc='')) 1700000000000 (lit ''k3j2h1g0f'') 1700000000000
        IdbOk demo_file]"
  have a: "distinct (map group_id (urlGroups initialApp)) \<and>
      distinct (allIds (urlGroups initialApp)) \<and> distinct (map opDraw ?ops)"
    by (simp add: initialApp_def INITIAL_URL_GROUPS_def allIds_def lit_def)
  have b: "\<forall>op \<in> set ?ops. opId op \<notin> set (allIds (urlGroups initialApp))"
    by (simp add: initialApp_def INITIAL_URL_GROUPS_def allIds_def)
  from a b have h: "distinct (map group_id (urlGroups initialApp)) \<and>
      distinct (allIds (urlGroups initialApp)) \<and> distinct (map opDraw ?ops) \<and>
      (\<forall>op \<in> set ?ops. opId op \<notin> set (allIds (urlGroups initialApp)))"
    by blast
  from ids_unique_for_distinct_draws [OF h]
  have c: "distinct (allIds (urlGroups (runOps ?ops initialApp)))" by (rule conjunct1)
  have d: "length (allIds (urlGroups (runOps ?ops initialApp))) = 3"
    by (simp add: initialApp_def INITIAL_URL_GROUPS_def handleAddSource_def appendToActive_def
        handleAddPersistentFile_def handleAddPersistentFile_steps_def saveFileToDB_def
        allIds_def)
  from b have b': "list_all (\<lambda>op. opId op \<notin> set (allIds (urlGroups initialApp))) ?ops"
    by (simp only: list_all_iff)
  from a b' c d show ?thesis by blast
qed

end
